theory Spec2Isabelle
  imports Complex_Main "HOL-Library.Product_Lexorder"
begin

section \<open>Inventory ledger of the bodega app: data model\<close>

text \<open>
  The handlers \<open>handleProcessEvent\<close>, \<open>handleUndoSale\<close> and \<open>handleReturn\<close> of
  \<open>src/inventario-bodega/src/App.jsx\<close>, and the older \<open>handleProcessEvent\<close> of
  \<open>src/unnamed/part_002\<close>, as functions on the contents of the IndexedDB stores.

  JavaScript numbers are rationals here (quantities and prices are never rounded by the
  handlers); an instant is the millisecond count that \<open>Date.now()\<close> returns and that an
  ISO string of \<open>nowISO()\<close> parses back to. A field that may be \<open>undefined\<close> is an
  option. A handler returns the outcome it reports with \<open>addToast\<close> together with the
  stores as the transaction leaves them.
\<close>

type_synonym instant = nat

datatype key = KNum nat | KStr string

record product =
  p_sku :: string
  p_name :: string
  p_category :: string
  p_default_purchase_price :: rat
  p_default_sale_price :: rat
  p_created_at :: instant

record batch =
  b_id :: nat
  b_product_sku :: string
  b_lot :: string
  b_expiry :: "string option"
  b_quantity :: rat
  b_purchase_price :: rat
  b_created_at :: instant
  b_return_id :: "nat option"
  b_status :: "string option"

record batch_used =
  u_batchId :: nat
  u_quantity :: rat
  u_purchase_price :: rat

record sale =
  s_id :: key
  s_timestamp :: instant
  s_sku :: string
  s_product_name :: string
  s_quantity :: rat
  s_sale_price :: rat
  s_total :: rat
  s_operator :: string
  s_device_id :: "string option"
  s_status :: string
  s_batches_used :: "batch_used list"
  s_bodega :: string
  s_lot :: string
  s_type :: string

record movement =
  m_type :: string
  m_sku :: string
  m_name :: string
  m_quantity :: rat
  m_price :: rat
  m_lot :: "string option"
  m_expiry :: "string option"
  m_timestamp :: instant
  m_device_id :: "string option"
  m_operator :: string
  m_bodega :: "string option"
  m_sale_id :: "key option"
  m_return_id :: "nat option"
  m_batches_used :: "batch_used list option"

record return_rec =
  r_id :: nat
  r_type :: "string option"
  r_sku :: string
  r_name :: string
  r_quantity :: rat
  r_price :: rat
  r_lot :: "string option"
  r_expiry :: "string option"
  r_timestamp :: instant
  r_device_id :: "string option"
  r_operator :: string
  r_bodega :: "string option"
  r_original_sale_id :: "key option"
  r_original_batch_id :: "nat option"
  r_status :: string

text \<open>
  The stores. \<open>batches\<close>, \<open>returns\<close> and \<open>movements\<close> have \<open>autoIncrement\<close> keys: the
  list is in key order, as \<open>getAll()\<close> returns it, and the key generator of each store is
  a counter of the state. \<open>sales\<close> is keyed by the \<open>id\<close> the handler supplies
  (\<open>SALE-<ms>\<close>); only sums and lookups by key are taken over it.
\<close>

record db =
  products :: "string \<rightharpoonup> product"
  batches :: "batch list"
  batch_gen :: nat
  sales :: "sale list"
  returns :: "return_rec list"
  return_gen :: nat
  movements :: "movement list"

definition empty_db :: db where
  "empty_db = \<lparr>products = Map.empty, batches = [], batch_gen = 1, sales = [],
     returns = [], return_gen = 1, movements = []\<rparr>"

text \<open>
  What a handler reads besides the stores: the React state (\<open>db\<close>, \<open>connected\<close>,
  \<open>salesSensorConnected\<close>, \<open>selectedDevice\<close>, \<open>settings\<close>) and the clock, one field for
  each place where the handlers read it.
\<close>

record env =
  db_ready :: bool
  connected :: bool
  salesSensorConnected :: bool
  dev_id :: string
  dev_operator :: "string option"
  settings_user :: "string option"
  settings_bodega :: "string option"
  now_lot :: instant
  now_timestamp :: instant
  now_product :: instant
  now_batch :: instant
  now_sale_id :: instant
  now_sale_lot :: instant
  now_movement :: instant
  now_feed :: instant

record payload =
  pl_event :: string
  pl_sku :: "string option"
  pl_barcode :: "string option"
  pl_name :: "string option"
  pl_quantity :: "rat option"
  pl_purchase_price :: "rat option"
  pl_sale_price :: "rat option"
  pl_lot :: "string option"
  pl_expiry :: "string option"
  pl_category :: "string option"
  pl_timestamp :: "instant option"
  pl_device_id :: "string option"
  pl_operator :: "string option"
  pl_bodega :: "string option"

text \<open>The toasts of type \<open>error\<close> the handlers show, and the silent return without a database.\<close>

datatype error =
    DbUnavailable
  | NotConnected
  | MissingIdentifier
  | MissingName
  | SensorsNotConnected
  | ProductNotFound
  | InsufficientStock rat rat
  | OverReturn
  | SaleNotFoundOrCancelled
  | BatchNotFound
  | AlreadyReturned
  | StorageError

text \<open>
  \<open>PartiallyAccepted r\<close> is the warning toast of the older handler (\<open>Venta procesada
  parcialmente\<close>, \<open>r\<close> units missing).
\<close>

datatype outcome = Accepted | PartiallyAccepted rat | Rejected error

subsection \<open>JavaScript helpers\<close>

text \<open>\<open>a || d\<close> on a string that may be undefined: the empty string is falsy too.\<close>

fun str_or :: "string option \<Rightarrow> string \<Rightarrow> string" where
  "str_or None d = d"
| "str_or (Some []) d = d"
| "str_or (Some (c # cs)) d = c # cs"

fun truthy_str :: "string option \<Rightarrow> bool" where
  "truthy_str None = False"
| "truthy_str (Some []) = False"
| "truthy_str (Some (c # cs)) = True"

text \<open>\<open>a || null\<close>.\<close>

fun str_or_null :: "string option \<Rightarrow> string option" where
  "str_or_null None = None"
| "str_or_null (Some []) = None"
| "str_or_null (Some (c # cs)) = Some (c # cs)"

text \<open>\<open>a || d\<close> on a number that may be undefined: zero is falsy too.\<close>

fun num_or :: "rat option \<Rightarrow> rat \<Rightarrow> rat" where
  "num_or None d = d"
| "num_or (Some x) d = (if x = 0 then d else x)"

definition startsWith :: "string \<Rightarrow> string \<Rightarrow> bool" where
  "startsWith s pre = (take (length pre) s = pre)"

text \<open>The decimal digits of a number, as a template literal prints it.\<close>

function dec :: "nat \<Rightarrow> string" where
  "dec n = (if n < 10 then [''0123456789'' ! n] else dec (n div 10) @ [''0123456789'' ! (n mod 10)])"
  by pat_completeness auto
termination
  by (relation "measure id") auto

declare dec.simps [simp del]

subsection \<open>Store operations\<close>

text \<open>\<open>store.add(b)\<close> on an auto-increment store: the generator's key, at the end.\<close>

definition add_batch :: "batch \<Rightarrow> db \<Rightarrow> db" where
  "add_batch b s = s\<lparr>batches := batches s @ [b\<lparr>b_id := batch_gen s\<rparr>], batch_gen := Suc (batch_gen s)\<rparr>"

definition add_return :: "return_rec \<Rightarrow> db \<Rightarrow> db" where
  "add_return r s = s\<lparr>returns := returns s @ [r\<lparr>r_id := return_gen s\<rparr>], return_gen := Suc (return_gen s)\<rparr>"

definition add_movement :: "movement \<Rightarrow> db \<Rightarrow> db" where
  "add_movement m s = s\<lparr>movements := movements s @ [m]\<rparr>"

text \<open>\<open>batchStore.put(b)\<close>: the record of that key is replaced; a new key is inserted in key order.\<close>

definition put_batch :: "batch \<Rightarrow> batch list \<Rightarrow> batch list" where
  "put_batch b bs =
     (if list_ex (\<lambda>x. b_id x = b_id b) bs
      then map (\<lambda>x. if b_id x = b_id b then b else x) bs
      else insort_key b_id b bs)"

text \<open>\<open>batchStore.get(id)\<close> and \<open>salesStore.get(id)\<close>.\<close>

definition get_batch :: "nat \<Rightarrow> batch list \<Rightarrow> batch option" where
  "get_batch i bs = find (\<lambda>x. b_id x = i) bs"

definition get_sale :: "key \<Rightarrow> sale list \<Rightarrow> sale option" where
  "get_sale k ss = find (\<lambda>x. s_id x = k) ss"

definition put_sale :: "sale \<Rightarrow> sale list \<Rightarrow> sale list" where
  "put_sale x ss =
     (if list_ex (\<lambda>y. s_id y = s_id x) ss
      then map (\<lambda>y. if s_id y = s_id x then x else y) ss
      else ss @ [x])"


section \<open>\<open>handleProcessEvent\<close> of App.jsx\<close>

text \<open>\<open>payload.sku || payload.barcode\<close>.\<close>

definition event_sku :: "payload \<Rightarrow> string" where
  "event_sku p = str_or (pl_sku p) (str_or (pl_barcode p) [])"

text \<open>The base movement record, built from the payload before any store is touched.\<close>

definition base_movement :: "env \<Rightarrow> payload \<Rightarrow> movement" where
  "base_movement e p = \<lparr>
     m_type = pl_event p,
     m_sku = event_sku p,
     m_name = str_or (pl_name p) [],
     m_quantity = max 1 (num_or (pl_quantity p) 0),
     m_price = max 0 (num_or (pl_purchase_price p) (num_or (pl_sale_price p) 0)),
     m_lot = Some (str_or (pl_lot p) (''LOT-'' @ dec (now_lot e))),
     m_expiry = str_or_null (pl_expiry p),
     m_timestamp = (case pl_timestamp p of Some t \<Rightarrow> t | None \<Rightarrow> now_timestamp e),
     m_device_id = Some (str_or (pl_device_id p) (dev_id e)),
     m_operator = str_or (pl_operator p) (str_or (dev_operator e) (str_or (settings_user e) ''Operador'')),
     m_bodega = Some (str_or (pl_bodega p) (str_or (settings_bodega e) ''Bodega Principal'')),
     m_sale_id = None,
     m_return_id = None,
     m_batches_used = None\<rparr>"

text \<open>The branch \<open>payload.event === 'ingreso'\<close>.\<close>

definition ingreso :: "env \<Rightarrow> payload \<Rightarrow> movement \<Rightarrow> db \<Rightarrow> outcome \<times> db" where
  "ingreso e p mv s =
     (let s1 = (case products s (m_sku mv) of
                  None \<Rightarrow> s\<lparr>products := (products s)(m_sku mv \<mapsto>
                    \<lparr>p_sku = m_sku mv,
                     p_name = m_name mv,
                     p_category = str_or (pl_category p) (''Sin categor'' @ [CHR 0xED] @ ''a''),
                     p_default_purchase_price = m_price mv,
                     p_default_sale_price = num_or (pl_sale_price p) (m_price mv * (3 / 2)),
                     p_created_at = now_product e\<rparr>)\<rparr>
                | Some existingProduct \<Rightarrow> s);
          s2 = add_batch
                 \<lparr>b_id = 0,
                  b_product_sku = m_sku mv,
                  b_lot = str_or (m_lot mv) (''INIT-'' @ dec (now_batch e)),
                  b_expiry = m_expiry mv,
                  b_quantity = m_quantity mv,
                  b_purchase_price = m_price mv,
                  b_created_at = now_batch e,
                  b_return_id = None,
                  b_status = None\<rparr> s1;
          s3 = add_movement (mv\<lparr>m_type := ''ingreso_inventario''\<rparr>) s2
      in (Accepted, s3))"

text \<open>
  \<open>totalStock\<close>: the \<open>reduce\<close> over the batches of the sku whose lot does not start with
  \<open>DEV-\<close>.
\<close>

definition totalStock :: "string \<Rightarrow> batch list \<Rightarrow> rat" where
  "totalStock sku bs =
     foldl (\<lambda>acc b. acc + b_quantity b) 0
       (filter (\<lambda>b. b_product_sku b = sku \<and> \<not> startsWith (b_lot b) ''DEV-'') bs)"

text \<open>
  \<open>productBatches\<close>: the batches a sale may draw from, sorted by \<open>created_at\<close>.
  \<open>Array.prototype.sort\<close> is stable, and so is \<open>sort_key\<close>.
\<close>

definition productBatches :: "string \<Rightarrow> batch list \<Rightarrow> batch list" where
  "productBatches sku bs =
     sort_key b_created_at
       (filter (\<lambda>b. b_product_sku b = sku \<and> b_quantity b > 0 \<and> \<not> startsWith (b_lot b) ''DEV-'') bs)"

text \<open>
  The loop \<open>for (const batch of productBatches)\<close>: the remaining quantity, the batches
  store with every \<open>put\<close> applied, and \<open>batchesUsed\<close>.
\<close>

fun consume :: "batch list \<Rightarrow> rat \<Rightarrow> batch list \<Rightarrow> batch_used list \<Rightarrow> rat \<times> batch list \<times> batch_used list" where
  "consume [] remaining store used = (remaining, store, used)"
| "consume (b # rest) remaining store used =
     (if remaining \<le> 0 then (remaining, store, used)
      else let take = min (b_quantity b) remaining
           in consume rest (remaining - take)
                (put_batch (b\<lparr>b_quantity := b_quantity b - take\<rparr>) store)
                (used @ [\<lparr>u_batchId = b_id b, u_quantity = take, u_purchase_price = b_purchase_price b\<rparr>]))"

text \<open>
  The branch \<open>payload.event === 'venta'\<close>. \<open>sales.add\<close> fails on a key that is already
  there (two sales in one millisecond); the exception aborts the transaction.
\<close>

definition venta :: "env \<Rightarrow> movement \<Rightarrow> db \<Rightarrow> outcome \<times> db" where
  "venta e mv0 s =
     (if \<not> connected e \<or> \<not> salesSensorConnected e then (Rejected SensorsNotConnected, s)
      else case products s (m_sku mv0) of
        None \<Rightarrow> (Rejected ProductNotFound, s)
      | Some product \<Rightarrow>
          let mv = mv0\<lparr>m_price := (if p_default_sale_price product = 0 then m_price mv0
                                     else p_default_sale_price product)\<rparr>;
              total = totalStock (m_sku mv) (batches s)
          in if m_quantity mv > total then (Rejected (InsufficientStock (m_quantity mv) total), s)
             else
               let (remaining, store, batchesUsed) =
                     consume (productBatches (m_sku mv) (batches s)) (m_quantity mv) (batches s) [];
                   saleData =
                     \<lparr>s_id = KStr (''SALE-'' @ dec (now_sale_id e)),
                      s_timestamp = m_timestamp mv,
                      s_sku = m_sku mv,
                      s_product_name = m_name mv,
                      s_quantity = m_quantity mv,
                      s_sale_price = m_price mv,
                      s_total = m_quantity mv * m_price mv,
                      s_operator = m_operator mv,
                      s_device_id = m_device_id mv,
                      s_status = ''completed'',
                      s_batches_used = batchesUsed,
                      s_bodega = str_or (m_bodega mv) [],
                      s_lot = ''SALE-'' @ dec (now_sale_lot e),
                      s_type = ''venta''\<rparr>
               in if list_ex (\<lambda>x. s_id x = s_id saleData) (sales s) then (Rejected StorageError, s)
                  else (Accepted,
                        add_movement
                          (mv\<lparr>m_sale_id := Some (s_id saleData),
                              m_batches_used := Some batchesUsed,
                              m_type := ''venta''\<rparr>)
                          (s\<lparr>batches := store, sales := sales s @ [saleData]\<rparr>)))"

text \<open>The branch \<open>payload.event === 'devolucion'\<close>.\<close>

definition soldTotal :: "string \<Rightarrow> sale list \<Rightarrow> rat" where
  "soldTotal sku ss =
     foldl (\<lambda>acc x. acc + s_quantity x) 0
       (filter (\<lambda>x. s_sku x = sku \<and> s_status x = ''completed'') ss)"

definition returnedTotal :: "string \<Rightarrow> return_rec list \<Rightarrow> rat" where
  "returnedTotal sku rs =
     foldl (\<lambda>acc r. acc + r_quantity r) 0 (filter (\<lambda>r. r_sku r = sku) rs)"

definition devolucion :: "env \<Rightarrow> movement \<Rightarrow> db \<Rightarrow> outcome \<times> db" where
  "devolucion e mv s =
     (if m_quantity mv > soldTotal (m_sku mv) (sales s) - returnedTotal (m_sku mv) (returns s)
      then (Rejected OverReturn, s)
      else
        let returnId = return_gen s;
            s1 = add_return
                   \<lparr>r_id = 0,
                    r_type = Some (m_type mv),
                    r_sku = m_sku mv,
                    r_name = m_name mv,
                    r_quantity = m_quantity mv,
                    r_price = m_price mv,
                    r_lot = m_lot mv,
                    r_expiry = m_expiry mv,
                    r_timestamp = m_timestamp mv,
                    r_device_id = m_device_id mv,
                    r_operator = m_operator mv,
                    r_bodega = m_bodega mv,
                    r_original_sale_id = None,
                    r_original_batch_id = None,
                    r_status = ''completed''\<rparr> s;
            s2 = add_batch
                   \<lparr>b_id = 0,
                    b_product_sku = m_sku mv,
                    b_lot = ''DEV-'' @ dec returnId,
                    b_expiry = m_expiry mv,
                    b_quantity = m_quantity mv,
                    b_purchase_price = m_price mv,
                    b_created_at = now_batch e,
                    b_return_id = Some returnId,
                    b_status = None\<rparr> s1;
            s3 = add_movement (mv\<lparr>m_type := ''devolucion_venta'', m_return_id := Some returnId\<rparr>) s2
        in (Accepted, s3))"

text \<open>
  The handler. An event that is none of the three kinds writes nothing and reaches the
  end of the handler without a toast.
\<close>

definition handleProcessEvent :: "env \<Rightarrow> payload \<Rightarrow> db \<Rightarrow> outcome \<times> db" where
  "handleProcessEvent e p s =
     (if \<not> db_ready e then (Rejected DbUnavailable, s)
      else if \<not> connected e then (Rejected NotConnected, s)
      else if \<not> truthy_str (pl_sku p) \<and> \<not> truthy_str (pl_barcode p) then (Rejected MissingIdentifier, s)
      else if \<not> truthy_str (pl_name p) then (Rejected MissingName, s)
      else
        let movement = base_movement e p
        in if pl_event p = ''ingreso'' then ingreso e p movement s
           else if pl_event p = ''venta'' then venta e movement s
           else if pl_event p = ''devolucion'' then devolucion e movement s
           else (Accepted, s))"

section \<open>\<open>handleUndoSale\<close> of App.jsx\<close>

text \<open>
  The handler takes the feed's event object and reads its \<open>id\<close>, \<open>sku\<close>, \<open>name\<close>,
  \<open>quantity\<close> and \<open>device_id\<close>. The sale record has no field \<open>price\<close>, so
  \<open>sale.price || 0\<close> is 0.
\<close>

record sale_event =
  se_id :: key
  se_sku :: string
  se_name :: string
  se_quantity :: rat
  se_device_id :: "string option"

text \<open>
  The entry that \<open>handleProcessEvent\<close> puts at the head of the event feed when it reaches
  its end, \<open>{id: Date.now(), ...movement, type: eventType, timestamp: nowISO()}\<close>, as far
  as \<open>handleUndoSale\<close> reads it. The feed's button \<open>Deshacer venta\<close>, the only caller of
  \<open>handleUndoSale\<close>, hands this object over.
\<close>

definition feed_entry :: "env \<Rightarrow> payload \<Rightarrow> sale_event" where
  "feed_entry e p =
     \<lparr>se_id = KNum (now_feed e),
      se_sku = m_sku (base_movement e p),
      se_name = m_name (base_movement e p),
      se_quantity = m_quantity (base_movement e p),
      se_device_id = m_device_id (base_movement e p)\<rparr>"

definition handleUndoSale :: "env \<Rightarrow> sale_event \<Rightarrow> db \<Rightarrow> outcome \<times> db" where
  "handleUndoSale e saleEvent s =
     (if \<not> db_ready e then (Rejected DbUnavailable, s)
      else case get_sale (se_id saleEvent) (sales s) of
        None \<Rightarrow> (Rejected SaleNotFoundOrCancelled, s)
      | Some sale \<Rightarrow>
          if s_status sale = ''cancelled'' then (Rejected SaleNotFoundOrCancelled, s)
          else
            let returnId = return_gen s;
                operator = str_or (settings_user e) ''Usuario'' @ '' (anulaci'' @ [CHR 0xF3] @ ''n)'';
                s1 = add_return
                       \<lparr>r_id = 0,
                        r_type = None,
                        r_sku = se_sku saleEvent,
                        r_name = se_name saleEvent,
                        r_quantity = se_quantity saleEvent,
                        r_price = 0,
                        r_lot = None,
                        r_expiry = None,
                        r_timestamp = now_timestamp e,
                        r_device_id = se_device_id saleEvent,
                        r_operator = operator,
                        r_bodega = None,
                        r_original_sale_id = Some (se_id saleEvent),
                        r_original_batch_id = None,
                        r_status = ''completed''\<rparr> s;
                s2 = add_batch
                       \<lparr>b_id = 0,
                        b_product_sku = se_sku saleEvent,
                        b_lot = ''UNDO-'' @ dec returnId,
                        b_expiry = None,
                        b_quantity = se_quantity saleEvent,
                        b_purchase_price = (case s_batches_used sale of [] \<Rightarrow> 0 | u # us \<Rightarrow> u_purchase_price u),
                        b_created_at = now_batch e,
                        b_return_id = Some returnId,
                        b_status = None\<rparr> s1;
                s3 = s2\<lparr>sales := put_sale (sale\<lparr>s_status := ''cancelled''\<rparr>) (sales s2)\<rparr>;
                s4 = add_movement
                       \<lparr>m_type = ''anulacion_venta'',
                        m_sku = se_sku saleEvent,
                        m_name = se_name saleEvent,
                        m_quantity = se_quantity saleEvent,
                        m_price = 0,
                        m_lot = None,
                        m_expiry = None,
                        m_timestamp = now_movement e,
                        m_device_id = se_device_id saleEvent,
                        m_operator = operator,
                        m_bodega = None,
                        m_sale_id = Some (se_id saleEvent),
                        m_return_id = Some returnId,
                        m_batches_used = None\<rparr> s3
            in (Accepted, s4))"

section \<open>\<open>handleReturn\<close> of App.jsx\<close>

text \<open>
  \<open>batch\<close> is the row of the inventory table the user clicked; \<open>mode\<close> is \<open>ventas\<close> (the
  default) or anything else for the return of a purchase. The React copy of the products,
  refreshed after every handler, is the products store.
\<close>

definition product_name_or_sku :: "db \<Rightarrow> string \<Rightarrow> string" where
  "product_name_or_sku s sku =
     (case products s sku of None \<Rightarrow> sku | Some p \<Rightarrow> str_or (Some (p_name p)) sku)"

definition handleReturn :: "env \<Rightarrow> batch \<Rightarrow> string \<Rightarrow> db \<Rightarrow> outcome \<times> db" where
  "handleReturn e batch mode s =
     (if \<not> db_ready e then (Rejected DbUnavailable, s)
      else if mode = ''ventas'' then
        let returnId = return_gen s;
            operator = str_or (dev_operator e) (str_or (settings_user e) ''Usuario'');
            s1 = add_return
                   \<lparr>r_id = 0,
                    r_type = None,
                    r_sku = b_product_sku batch,
                    r_name = product_name_or_sku s (b_product_sku batch),
                    r_quantity = b_quantity batch,
                    r_price = b_purchase_price batch,
                    r_lot = None,
                    r_expiry = None,
                    r_timestamp = now_timestamp e,
                    r_device_id = Some (dev_id e),
                    r_operator = operator,
                    r_bodega = None,
                    r_original_sale_id = None,
                    r_original_batch_id = Some (b_id batch),
                    r_status = ''completed''\<rparr> s;
            s2 = add_batch
                   \<lparr>b_id = 0,
                    b_product_sku = b_product_sku batch,
                    b_lot = ''DEV-SALE-'' @ dec returnId,
                    b_expiry = b_expiry batch,
                    b_quantity = b_quantity batch,
                    b_purchase_price = b_purchase_price batch,
                    b_created_at = now_batch e,
                    b_return_id = Some returnId,
                    b_status = Some ''returned''\<rparr> s1;
            s3 = add_movement
                   \<lparr>m_type = ''devolucion_venta'',
                    m_sku = b_product_sku batch,
                    m_name = product_name_or_sku s (b_product_sku batch),
                    m_quantity = b_quantity batch,
                    m_price = b_purchase_price batch,
                    m_lot = Some (''DEV-SALE-'' @ dec returnId),
                    m_expiry = None,
                    m_timestamp = now_movement e,
                    m_device_id = Some (dev_id e),
                    m_operator = operator,
                    m_bodega = None,
                    m_sale_id = None,
                    m_return_id = Some returnId,
                    m_batches_used = None\<rparr> s2
        in (Accepted, s3)
      else case get_batch (b_id batch) (batches s) of
        None \<Rightarrow> (Rejected BatchNotFound, s)
      | Some existing0 \<Rightarrow>
          if b_status existing0 = Some ''returned'' then (Rejected AlreadyReturned, s)
          else
            let returnId = return_gen s;
                operator = str_or (dev_operator e) (str_or (settings_user e) ''Usuario'');
                s1 = add_return
                       \<lparr>r_id = 0,
                        r_type = Some ''inventory_return'',
                        r_sku = b_product_sku existing0,
                        r_name = product_name_or_sku s (b_product_sku existing0),
                        r_quantity = b_quantity existing0,
                        r_price = b_purchase_price existing0,
                        r_lot = None,
                        r_expiry = None,
                        r_timestamp = now_timestamp e,
                        r_device_id = Some (dev_id e),
                        r_operator = operator,
                        r_bodega = None,
                        r_original_sale_id = None,
                        r_original_batch_id = Some (b_id batch),
                        r_status = ''completed''\<rparr> s;
                existing = existing0\<lparr>b_lot := ''DEV-INV-'' @ dec returnId,
                                      b_status := Some ''returned'',
                                      b_return_id := Some returnId,
                                      b_quantity := 0\<rparr>;
                s2 = s1\<lparr>batches := put_batch existing (batches s1)\<rparr>;
                s3 = add_movement
                       \<lparr>m_type = ''devolucion_inventario'',
                        m_sku = b_product_sku existing,
                        m_name = product_name_or_sku s (b_product_sku existing),
                        m_quantity = b_quantity existing,
                        m_price = b_purchase_price existing,
                        m_lot = Some (b_lot existing),
                        m_expiry = None,
                        m_timestamp = now_movement e,
                        m_device_id = Some (dev_id e),
                        m_operator = operator,
                        m_bodega = None,
                        m_sale_id = None,
                        m_return_id = Some returnId,
                        m_batches_used = None\<rparr> s2
            in (Accepted, s3))"

section \<open>\<open>handleProcessEvent\<close> of part_002, the older handler\<close>

text \<open>
  This handler adds the movement record first, inside the one transaction of the call, and
  then branches on the event. Where it denies an event it runs \<open>await tx.done\<close> (with the
  comment \<open>rollback\<close> on a denied sale) and returns: \<open>tx.done\<close> waits for the transaction
  to complete, it does not abort it, so the movement already added is committed. It keeps
  no sales and returns stores. A payload with neither \<open>sku\<close> nor \<open>barcode\<close> has the sku
  \<open>undefined\<close>, written here as the empty string; \<open>productStore.get(undefined)\<close> then
  throws in the ingreso branch, after the movement was added. For such a payload the
  other branches compare \<open>undefined\<close> with the skus on record, which the empty string
  stands for only while no record has the empty string as its sku; what is proved of this
  handler below is about payloads that carry an identifier.
\<close>

definition base_movement_part002 :: "env \<Rightarrow> payload \<Rightarrow> movement" where
  "base_movement_part002 e p = \<lparr>
     m_type = pl_event p,
     m_sku = event_sku p,
     m_name = str_or (pl_name p) ''Producto sin nombre'',
     m_quantity = num_or (pl_quantity p) 1,
     m_price = num_or (pl_purchase_price p) (num_or (pl_sale_price p) 0),
     m_lot = Some (str_or (pl_lot p) []),
     m_expiry = str_or_null (pl_expiry p),
     m_timestamp = (case pl_timestamp p of Some t \<Rightarrow> t | None \<Rightarrow> now_timestamp e),
     m_device_id = Some (str_or (pl_device_id p) (dev_id e)),
     m_operator = str_or (pl_operator p) (str_or (settings_user e) ''Operador''),
     m_bodega = Some (str_or (pl_bodega p) (str_or (settings_bodega e) ''Bodega'')),
     m_sale_id = None,
     m_return_id = None,
     m_batches_used = None\<rparr>"

definition movementTotal :: "string \<Rightarrow> string \<Rightarrow> movement list \<Rightarrow> rat" where
  "movementTotal sku ty ms =
     foldl (\<lambda>acc m. acc + m_quantity m) 0 (filter (\<lambda>m. m_sku m = sku \<and> m_type m = ty) ms)"

definition handleProcessEvent_part002 :: "env \<Rightarrow> payload \<Rightarrow> db \<Rightarrow> outcome \<times> db" where
  "handleProcessEvent_part002 e p s =
     (if \<not> db_ready e \<or> \<not> connected e then (Rejected NotConnected, s)
      else
        let movement = base_movement_part002 e p;
            s0 = add_movement movement s
        in if pl_event p = ''ingreso'' then
             (if \<not> truthy_str (pl_sku p) \<and> pl_barcode p = None then (Rejected StorageError, s0)
              else
                let s1 = (case products s0 (m_sku movement) of
                            None \<Rightarrow> s0\<lparr>products := (products s0)(m_sku movement \<mapsto>
                              \<lparr>p_sku = m_sku movement,
                               p_name = m_name movement,
                               p_category = str_or (pl_category p) (''Sin categor'' @ [CHR 0xED] @ ''a''),
                               p_default_purchase_price = m_price movement,
                               p_default_sale_price = num_or (pl_sale_price p) (m_price movement * (3 / 2)),
                               p_created_at = now_product e\<rparr>)\<rparr>
                          | Some existingProduct \<Rightarrow> s0);
                    s2 = add_batch
                           \<lparr>b_id = 0,
                            b_product_sku = m_sku movement,
                            b_lot = str_or (m_lot movement) (''AUTO-'' @ dec (now_lot e)),
                            b_expiry = m_expiry movement,
                            b_quantity = m_quantity movement,
                            b_purchase_price = m_price movement,
                            b_created_at = now_batch e,
                            b_return_id = None,
                            b_status = None\<rparr> s1
                in (Accepted, s2))
           else if pl_event p = ''venta'' then
             (let total = foldl (\<lambda>acc b. acc + b_quantity b) 0
                            (filter (\<lambda>b. b_product_sku b = m_sku movement) (batches s0))
              in if m_quantity movement > total
                 then (Rejected (InsufficientStock (m_quantity movement) total), s0)
                 else
                   let productBatches = sort_key b_created_at
                         (filter (\<lambda>b. b_product_sku b = m_sku movement \<and> b_quantity b > 0) (batches s0));
                       (remaining, store, used) = consume productBatches (m_quantity movement) (batches s0) []
                   in (if remaining > 0 then PartiallyAccepted remaining else Accepted,
                       s0\<lparr>batches := store\<rparr>))
           else if pl_event p = ''devolucion'' then
             (let sold = movementTotal (m_sku movement) ''venta'' (movements s0);
                  returned = movementTotal (m_sku movement) ''devolucion'' (movements s0)
              in if returned + m_quantity movement > sold then (Rejected OverReturn, s0)
                 else
                   (Accepted,
                    add_batch
                      \<lparr>b_id = 0,
                       b_product_sku = m_sku movement,
                       b_lot = str_or (m_lot movement) (''DEV-'' @ dec (now_lot e)),
                       b_expiry = m_expiry movement,
                       b_quantity = m_quantity movement,
                       b_purchase_price = m_price movement,
                       b_created_at = now_batch e,
                       b_return_id = None,
                       b_status = None\<rparr> s0))
           else (Accepted, s0))"

section \<open>Runs, the store's key order, and the specification's words\<close>

text \<open>The four checks of \<open>handleProcessEvent\<close> (App.jsx) that come before the event's branch.\<close>

definition passes_checks :: "env \<Rightarrow> payload \<Rightarrow> bool" where
  "passes_checks e p =
     (db_ready e \<and> connected e \<and> (truthy_str (pl_sku p) \<or> truthy_str (pl_barcode p)) \<and> truthy_str (pl_name p))"

text \<open>A sequence of calls of \<open>handleProcessEvent\<close> (App.jsx), each with the React state of its moment.\<close>

fun run :: "(env \<times> payload) list \<Rightarrow> db \<Rightarrow> db" where
  "run [] s = s"
| "run ((e, p) # rest) s = run rest (snd (handleProcessEvent e p s))"

text \<open>
  What IndexedDB guarantees of the batches store: \<open>getAll()\<close> lists it in ascending key
  order, keys are unique, and the key generator is above every key in use.
\<close>

definition key_order :: "db \<Rightarrow> bool" where
  "key_order s = (sorted_wrt (<) (map b_id (batches s)) \<and> list_all (\<lambda>b. b_id b < batch_gen s) (batches s))"

text \<open>Every sale is stored under a string key, as \<open>SALE-<ms>\<close> is.\<close>

definition string_keyed :: "sale list \<Rightarrow> bool" where
  "string_keyed ss = list_all (\<lambda>x. case s_id x of KNum n \<Rightarrow> False | KStr k \<Rightarrow> True) ss"


text \<open>
  The eligible batches, ascending by \<open>created_at\<close>, ties broken by \<open>id\<close> ascending; and the
  walk that takes \<open>min(batch.remaining, stillNeeded)\<close> from each until \<open>stillNeeded == 0\<close>.
\<close>

definition eligibleForSale_spec :: "string \<Rightarrow> batch list \<Rightarrow> batch list" where
  "eligibleForSale_spec sku bs =
     sort_key (\<lambda>b. (b_created_at b, b_id b))
       (filter (\<lambda>b. b_product_sku b = sku \<and> 0 < b_quantity b \<and> \<not> startsWith (b_lot b) ''DEV-'') bs)"

fun fifo_spec :: "batch list \<Rightarrow> rat \<Rightarrow> batch_used list" where
  "fifo_spec [] stillNeeded = []"
| "fifo_spec (b # bs) stillNeeded =
     (if stillNeeded = 0 then []
      else \<lparr>u_batchId = b_id b, u_quantity = min (b_quantity b) stillNeeded,
            u_purchase_price = b_purchase_price b\<rparr>
           # fifo_spec bs (stillNeeded - min (b_quantity b) stillNeeded))"

text \<open>The quantity a consumption list takes from the batch of a given id.\<close>

definition taken_from :: "batch_used list \<Rightarrow> nat \<Rightarrow> rat" where
  "taken_from used i = sum_list (map u_quantity (filter (\<lambda>u. u_batchId u = i) used))"

section \<open>Scenarios\<close>

text \<open>Device and sensor connected, the clock at 1000 ms.\<close>

definition demo_env :: env where
  "demo_env = \<lparr>db_ready = True, connected = True, salesSensorConnected = True,
     dev_id = ''PUL-001'', dev_operator = Some [], settings_user = None, settings_bodega = None,
     now_lot = 1000, now_timestamp = 1000, now_product = 1000, now_batch = 1000,
     now_sale_id = 1000, now_sale_lot = 1000, now_movement = 1000, now_feed = 1001\<rparr>"

text \<open>The sample payload of the simulation panel: 12 units of GALX-001 at 1.45, sold at 2.50.\<close>

definition demo_ingreso :: payload where
  "demo_ingreso = \<lparr>pl_event = ''ingreso'', pl_sku = Some ''GALX-001'', pl_barcode = Some ''7501031311306'',
     pl_name = Some ''Galletas X'', pl_quantity = Some 12, pl_purchase_price = Some (145 / 100),
     pl_sale_price = Some (5 / 2), pl_lot = Some ''L202510'', pl_expiry = Some ''2026-03-01'',
     pl_category = None, pl_timestamp = None, pl_device_id = None, pl_operator = None,
     pl_bodega = None\<rparr>"

definition demo_venta :: "rat \<Rightarrow> payload" where
  "demo_venta q = \<lparr>pl_event = ''venta'', pl_sku = Some ''GALX-001'', pl_barcode = None,
     pl_name = Some ''Galletas X'', pl_quantity = Some q, pl_purchase_price = None,
     pl_sale_price = None, pl_lot = None, pl_expiry = None,
     pl_category = None, pl_timestamp = None, pl_device_id = None, pl_operator = None,
     pl_bodega = None\<rparr>"

definition demo_devolucion :: "rat \<Rightarrow> payload" where
  "demo_devolucion q = (demo_venta q)\<lparr>pl_event := ''devolucion''\<rparr>"

text \<open>The database after the sample ingreso.\<close>

definition demo_db1 :: db where
  "demo_db1 = snd (handleProcessEvent demo_env demo_ingreso empty_db)"

text \<open>
  After it the whole stock is sold, and then three units are returned with a generic
  devolucion.
\<close>

definition demo_db_sold_out :: db where
  "demo_db_sold_out = snd (handleProcessEvent demo_env (demo_venta 12) demo_db1)"

definition demo_db_returned :: db where
  "demo_db_returned = snd (handleProcessEvent demo_env (demo_devolucion 3) demo_db_sold_out)"

text \<open>An ingreso without prices, as the JSON tab of the simulation panel lets one send it.\<close>

definition demo_db_free :: db where
  "demo_db_free = snd (handleProcessEvent demo_env
       (demo_ingreso\<lparr>pl_purchase_price := None, pl_sale_price := None\<rparr>) empty_db)"

text \<open>The sample ingreso through the older handler.\<close>

definition demo_db1_part002 :: db where
  "demo_db1_part002 = snd (handleProcessEvent_part002 demo_env demo_ingreso empty_db)"

text \<open>
  A run: the sample ingreso, a sale of 5, a denied sale of 10, and a sale of the 7 left,
  one second later.
\<close>

definition demo_run :: "(env \<times> payload) list" where
  "demo_run = [(demo_env, demo_ingreso), (demo_env, demo_venta 5), (demo_env, demo_venta 10),
     (demo_env\<lparr>now_sale_id := 2000\<rparr>, demo_venta 7)]"

text \<open>The sample batch returned to the supplier from the inventory table.\<close>

definition demo_db_inv_returned :: db where
  "demo_db_inv_returned = snd (handleReturn demo_env (hd (batches demo_db1)) ''inventario'' demo_db1)"

text \<open>A sale of 5 units, and the request to undo it: the sale's key with the sale's sku and quantity.\<close>

definition demo_db_sold5 :: db where
  "demo_db_sold5 = snd (handleProcessEvent demo_env (demo_venta 5) demo_db1)"

definition demo_undo :: "rat \<Rightarrow> sale_event" where
  "demo_undo q = \<lparr>se_id = KStr (''SALE-'' @ dec 1000), se_sku = ''GALX-001'', se_name = ''Galletas X'',
     se_quantity = q, se_device_id = Some ''PUL-001''\<rparr>"

definition demo_db_undone :: db where
  "demo_db_undone = snd (handleUndoSale demo_env (demo_undo 5) demo_db_sold5)"

text \<open>
  Two batches of GALX-001 with 5 units each, B1 created at 100 ms and B2 at 200 ms.
\<close>

definition demo_db_two :: db where
  "demo_db_two = run [(demo_env\<lparr>now_batch := 100\<rparr>, demo_ingreso\<lparr>pl_quantity := Some 5, pl_lot := Some ''B1''\<rparr>),
                      (demo_env\<lparr>now_batch := 200\<rparr>, demo_ingreso\<lparr>pl_quantity := Some 5, pl_lot := Some ''B2''\<rparr>)] empty_db"

text \<open>An ingreso of 10 units bought at 1.00, a sale of 4 of them, and that sale undone.\<close>

definition demo_ingreso10 :: payload where
  "demo_ingreso10 = demo_ingreso\<lparr>pl_quantity := Some 10, pl_purchase_price := Some 1\<rparr>"

definition demo_db10 :: db where
  "demo_db10 = snd (handleProcessEvent demo_env demo_ingreso10 empty_db)"

definition demo_db10_sold :: db where
  "demo_db10_sold = snd (handleProcessEvent demo_env (demo_venta 4) demo_db10)"

definition demo_db10_undone :: db where
  "demo_db10_undone = snd (handleUndoSale demo_env (demo_undo 4) demo_db10_sold)"

text \<open>
  The same two batches entered in the other order, so that B1, created earlier, has the
  larger id; and two batches created in the same millisecond.
\<close>

definition demo_db_two_swapped :: db where
  "demo_db_two_swapped = run [(demo_env\<lparr>now_batch := 200\<rparr>, demo_ingreso\<lparr>pl_quantity := Some 5, pl_lot := Some ''B2''\<rparr>),
                              (demo_env\<lparr>now_batch := 100\<rparr>, demo_ingreso\<lparr>pl_quantity := Some 5, pl_lot := Some ''B1''\<rparr>)] empty_db"

definition demo_db_two_tied :: db where
  "demo_db_two_tied = run [(demo_env\<lparr>now_batch := 100\<rparr>, demo_ingreso\<lparr>pl_quantity := Some 5, pl_lot := Some ''B1''\<rparr>),
                           (demo_env\<lparr>now_batch := 100\<rparr>, demo_ingreso\<lparr>pl_quantity := Some 5, pl_lot := Some ''B2''\<rparr>)] empty_db"

text \<open>
  The undo of that sale as the feed's button asks for it, and an undo request with the
  sale's key but another sku and quantity.
\<close>

definition demo_db10_feed_undo :: db where
  "demo_db10_feed_undo = snd (handleUndoSale demo_env (feed_entry demo_env (demo_venta 4)) demo_db10_sold)"

definition demo_db10_other_undo :: db where
  "demo_db10_other_undo
     = snd (handleUndoSale demo_env ((demo_undo 1)\<lparr>se_sku := ''LECH-001''\<rparr>) demo_db10_sold)"

section \<open>Properties\<close>

lemmas model_defs = handleProcessEvent_def base_movement_def event_sku_def ingreso_def venta_def
  devolucion_def totalStock_def productBatches_def soldTotal_def returnedTotal_def add_batch_def
  add_return_def add_movement_def put_batch_def get_batch_def get_sale_def put_sale_def
  startsWith_def empty_db_def passes_checks_def

lemmas demo_defs = demo_env_def demo_ingreso_def demo_venta_def demo_devolucion_def demo_db1_def
  demo_db_sold_out_def demo_db_returned_def demo_db_free_def demo_db1_part002_def
  demo_run_def demo_db_inv_returned_def demo_db_sold5_def demo_undo_def demo_db_undone_def

lemmas demo_defs10 = demo_ingreso10_def demo_db10_def demo_db10_sold_def demo_db10_undone_def
  demo_db10_feed_undo_def demo_db10_other_undo_def

subsection \<open>The base movement\<close>

lemma m_sku_base [simp]: "m_sku (base_movement e p) = event_sku p"
  by (simp add: base_movement_def)

lemma m_quantity_base [simp]: "m_quantity (base_movement e p) = max 1 (num_or (pl_quantity p) 0)"
  by (simp add: base_movement_def)


lemma foldl_add_sum_list:
  fixes f :: "'a \<Rightarrow> rat"
  shows "foldl (\<lambda>acc x. acc + f x) a xs = a + sum_list (map f xs)"
  by (induction xs arbitrary: a) (simp_all add: add.assoc)

lemma totalStock_sum:
  "totalStock sku bs =
     sum_list (map b_quantity (filter (\<lambda>b. b_product_sku b = sku \<and> \<not> startsWith (b_lot b) ''DEV-'') bs))"
  by (simp add: totalStock_def foldl_add_sum_list)

lemma soldTotal_sum:
  "soldTotal sku ss =
     sum_list (map s_quantity (filter (\<lambda>x. s_sku x = sku \<and> s_status x = ''completed'') ss))"
  by (simp add: soldTotal_def foldl_add_sum_list)

lemma returnedTotal_sum:
  "returnedTotal sku rs = sum_list (map r_quantity (filter (\<lambda>r. r_sku r = sku) rs))"
  by (simp add: returnedTotal_def foldl_add_sum_list)


subsection \<open>What an accepted event writes\<close>


lemma venta_accepted:
  assumes acc: "handleProcessEvent e p s = (Accepted, s')" and ev: "pl_event p = ''venta''"
  shows "\<exists>pr sl. products s (event_sku p) = Some pr \<and> sales s' = sales s @ [sl] \<and>
     s_status sl = ''completed'' \<and> s_sku sl = event_sku p \<and>
     s_quantity sl = max 1 (num_or (pl_quantity p) 0) \<and>
     s_sale_price sl = (if p_default_sale_price pr = 0
                        then max 0 (num_or (pl_purchase_price p) (num_or (pl_sale_price p) 0))
                        else p_default_sale_price pr) \<and>
     s_total sl = s_quantity sl * s_sale_price sl"
  using acc ev
  by (auto simp: handleProcessEvent_def venta_def add_movement_def base_movement_def Let_def
      split: if_splits option.splits prod.splits)

subsection \<open>An ingreso of a known product\<close>

text \<open>
  Claim C10. An ingreso whose sku already has a product record leaves the products store
  as it was, whatever name, category or prices the payload carries; sales and returns
  are untouched. When the handler's checks pass the event is accepted and exactly one
  batch and one movement are appended; otherwise nothing is written.
\<close>

theorem C10_ingreso_keeps_existing_product:
  assumes ev: "pl_event p = ''ingreso''"
    and ex: "products s (event_sku p) = Some pr"
  shows "products (snd (handleProcessEvent e p s)) = products s \<and>
         sales (snd (handleProcessEvent e p s)) = sales s \<and>
         returns (snd (handleProcessEvent e p s)) = returns s \<and>
         (if passes_checks e p
          then fst (handleProcessEvent e p s) = Accepted \<and>
               (\<exists>b m. batches (snd (handleProcessEvent e p s)) = batches s @ [b] \<and>
                      b_product_sku b = event_sku p \<and>
                      b_quantity b = max 1 (num_or (pl_quantity p) 0) \<and>
                      movements (snd (handleProcessEvent e p s)) = movements s @ [m] \<and>
                      m_type m = ''ingreso_inventario'' \<and> m_sku m = event_sku p \<and>
                      m_quantity m = b_quantity b)
          else snd (handleProcessEvent e p s) = s)"
  using ev ex
  by (simp add: handleProcessEvent_def ingreso_def add_batch_def add_movement_def Let_def
      passes_checks_def)

theorem C10_witness:
  "products (snd (handleProcessEvent demo_env
       (demo_ingreso\<lparr>pl_name := Some ''Otro nombre'', pl_sale_price := Some 9\<rparr>) demo_db1))
     = products demo_db1 \<and>
   map_option p_name (products demo_db1 ''GALX-001'') = Some ''Galletas X'' \<and>
   map_option p_default_sale_price (products demo_db1 ''GALX-001'') = Some (5 / 2) \<and>
   length (batches (snd (handleProcessEvent demo_env
       (demo_ingreso\<lparr>pl_name := Some ''Otro nombre'', pl_sale_price := Some 9\<rparr>) demo_db1))) = 2 \<and>
   length (movements (snd (handleProcessEvent demo_env
       (demo_ingreso\<lparr>pl_name := Some ''Otro nombre'', pl_sale_price := Some 9\<rparr>) demo_db1))) = 2"
proof -
  let ?p = "demo_ingreso\<lparr>pl_name := Some ''Otro nombre'', pl_sale_price := Some 9\<rparr>"
  have ev: "pl_event ?p = ''ingreso''" by (simp add: demo_defs)
  have ex: "products demo_db1 (event_sku ?p) = Some \<lparr>p_sku = ''GALX-001'', p_name = ''Galletas X'',
      p_category = ''Sin categor'' @ [CHR 0xED] @ ''a'', p_default_purchase_price = 145 / 100,
      p_default_sale_price = 5 / 2, p_created_at = 1000\<rparr>"
    by (simp add: demo_defs model_defs)
  have ok: "passes_checks demo_env ?p" by (simp add: demo_defs passes_checks_def)
  have len: "length (batches demo_db1) = 1" "length (movements demo_db1) = 1"
    by (simp_all add: demo_defs model_defs)
  from C10_ingreso_keeps_existing_product [OF ev ex, of demo_env] ok len ex
  show ?thesis by (auto simp: event_sku_def demo_ingreso_def)
qed

subsection \<open>The quantity of an event\<close>







subsection \<open>The total of a sale\<close>

text \<open>
  Claim C9, as amended. An accepted venta finds the product record and appends one sale
  with status \<open>completed\<close> whose total is its quantity times the resolved price: the
  product's \<open>default_sale_price\<close> when that is not zero, and otherwise the payload's
  price \<open>max(0, purchase_price || sale_price || 0)\<close>.
\<close>

theorem C9_sale_total:
  assumes acc: "handleProcessEvent e p s = (Accepted, s')" and ev: "pl_event p = ''venta''"
  shows "\<exists>pr sl. products s (event_sku p) = Some pr \<and> sales s' = sales s @ [sl] \<and>
     s_status sl = ''completed'' \<and>
     s_quantity sl = max 1 (num_or (pl_quantity p) 0) \<and>
     s_total sl = s_quantity sl * (if p_default_sale_price pr = 0
                        then max 0 (num_or (pl_purchase_price p) (num_or (pl_sale_price p) 0))
                        else p_default_sale_price pr)"
  using venta_accepted [OF acc ev] by auto

theorem C9_witness:
  "map s_total (sales (snd (handleProcessEvent demo_env (demo_venta 5) demo_db1))) = [25 / 2] \<and>
   map s_status (sales (snd (handleProcessEvent demo_env (demo_venta 5) demo_db1))) = [''completed'']"
proof -
  have acc: "handleProcessEvent demo_env (demo_venta 5) demo_db1
      = (Accepted, snd (handleProcessEvent demo_env (demo_venta 5) demo_db1))"
    by (simp add: demo_defs model_defs)
  have ev: "pl_event (demo_venta 5) = ''venta''" by (simp add: demo_defs)
  have pr: "map_option p_default_sale_price (products demo_db1 (event_sku (demo_venta 5))) = Some (5 / 2)"
    by (simp add: demo_defs model_defs)
  have none: "sales demo_db1 = []" by (simp add: demo_defs model_defs)
  from C9_sale_total [OF acc ev] pr none
  show ?thesis by (auto simp: demo_venta_def)
qed

text \<open>
  The claim as stated fails when the product's \<open>default_sale_price\<close> is 0, as after an
  ingreso without prices: a venta of 2 units whose payload carries the sale price 3 has
  the total 6, not 2 times 0.
\<close>

theorem C9_counterexample:
  "map_option p_default_sale_price (products demo_db_free ''GALX-001'') = Some 0 \<and>
   fst (handleProcessEvent demo_env ((demo_venta 2)\<lparr>pl_sale_price := Some 3\<rparr>) demo_db_free) = Accepted \<and>
   map s_quantity (sales (snd (handleProcessEvent demo_env
       ((demo_venta 2)\<lparr>pl_sale_price := Some 3\<rparr>) demo_db_free))) = [2] \<and>
   map s_total (sales (snd (handleProcessEvent demo_env
       ((demo_venta 2)\<lparr>pl_sale_price := Some 3\<rparr>) demo_db_free))) = [6]"
  by (simp add: demo_defs model_defs)

subsection \<open>The movement of an inventory return\<close>

text \<open>
  Claim C6 at the inventory return. \<open>handleReturn\<close>, asked to return a purchase batch that
  is in the store and not yet returned, accepts, appends one return record with the
  quantity the batch held and one movement of type \<open>devolucion_inventario\<close> for the
  batch's sku; but it sets \<open>existing.quantity = 0\<close> before it builds the movement from
  \<open>existing.quantity\<close>, so the movement's quantity is 0 whatever the batch held. In the
  witness the batch held 12 units.
\<close>

theorem C6_inventory_return_movement_quantity:
  assumes rdy: "db_ready e" and mode: "mode \<noteq> ''ventas''"
    and found: "get_batch (b_id batch) (batches s) = Some x"
    and st: "b_status x \<noteq> Some ''returned''"
  shows "\<exists>s' r m. handleReturn e batch mode s = (Accepted, s') \<and>
     returns s' = returns s @ [r] \<and> r_type r = Some ''inventory_return'' \<and>
     r_sku r = b_product_sku x \<and> r_quantity r = b_quantity x \<and>
     movements s' = movements s @ [m] \<and> m_type m = ''devolucion_inventario'' \<and>
     m_sku m = b_product_sku x \<and> m_quantity m = 0"
  using assms
  by (simp add: handleReturn_def add_return_def add_movement_def Let_def)

theorem C6_witness:
  "map b_quantity (batches demo_db1) = [12] \<and>
   fst (handleReturn demo_env (hd (batches demo_db1)) ''inventario'' demo_db1) = Accepted \<and>
   map r_quantity (returns (snd (handleReturn demo_env (hd (batches demo_db1)) ''inventario'' demo_db1))) = [12] \<and>
   map (\<lambda>m. (m_type m, m_quantity m))
     (movements (snd (handleReturn demo_env (hd (batches demo_db1)) ''inventario'' demo_db1)))
     = [(''ingreso_inventario'', 12), (''devolucion_inventario'', 0)]"
proof -
  have rdy: "db_ready demo_env" by (simp add: demo_defs)
  have mode: "''inventario'' \<noteq> ''ventas''" by simp
  have found: "get_batch (b_id (hd (batches demo_db1))) (batches demo_db1) = Some (hd (batches demo_db1))"
    by (simp add: demo_defs model_defs)
  have st: "b_status (hd (batches demo_db1)) \<noteq> Some ''returned''"
    by (simp add: demo_defs model_defs)
  have vals: "map b_quantity (batches demo_db1) = [12]" "returns demo_db1 = []"
    "map (\<lambda>m. (m_type m, m_quantity m)) (movements demo_db1) = [(''ingreso_inventario'', 12)]"
    by (simp_all add: demo_defs model_defs)
  from C6_inventory_return_movement_quantity [OF rdy mode found st] vals
  show ?thesis by auto
qed

subsection \<open>A denied sale in the older handler\<close>

text \<open>
  Claim C1 at the handler of part_002. With the device connected, a venta for more than
  the stock of its sku is denied for insufficient stock and no batch changes, but the
  movement that the handler added before the check stays in the store: the database it
  leaves is the one before with a movement of type \<open>venta\<close> appended. In the witness 50
  units are asked of a stock of 12.
\<close>

theorem C1_part002_denied_venta_commits_movement:
  assumes rdy: "db_ready e" and con: "connected e" and ev: "pl_event p = ''venta''"
    and ident: "truthy_str (pl_sku p) \<or> pl_barcode p \<noteq> None"
    and over: "num_or (pl_quantity p) 1
       > foldl (\<lambda>acc b. acc + b_quantity b) 0 (filter (\<lambda>b. b_product_sku b = event_sku p) (batches s))"
  shows "handleProcessEvent_part002 e p s
           = (Rejected (InsufficientStock (num_or (pl_quantity p) 1)
                (foldl (\<lambda>acc b. acc + b_quantity b) 0
                   (filter (\<lambda>b. b_product_sku b = event_sku p) (batches s)))),
              s\<lparr>movements := movements s @ [base_movement_part002 e p]\<rparr>) \<and>
         m_type (base_movement_part002 e p) = ''venta'' \<and>
         m_sku (base_movement_part002 e p) = event_sku p \<and>
         m_quantity (base_movement_part002 e p) = num_or (pl_quantity p) 1"
  using assms
  by (simp add: handleProcessEvent_part002_def base_movement_part002_def add_movement_def Let_def)

theorem C1_witness:
  "map b_quantity (batches demo_db1_part002) = [12] \<and>
   fst (handleProcessEvent_part002 demo_env (demo_venta 50) demo_db1_part002)
     = Rejected (InsufficientStock 50 12) \<and>
   map b_quantity (batches (snd (handleProcessEvent_part002 demo_env (demo_venta 50) demo_db1_part002))) = [12] \<and>
   map (\<lambda>m. (m_type m, m_quantity m))
     (movements (snd (handleProcessEvent_part002 demo_env (demo_venta 50) demo_db1_part002)))
     = [(''ingreso'', 12), (''venta'', 50)]"
proof -
  have rdy: "db_ready demo_env" and con: "connected demo_env" by (simp_all add: demo_defs)
  have ev: "pl_event (demo_venta 50) = ''venta''" by (simp add: demo_defs)
  have ident: "truthy_str (pl_sku (demo_venta 50)) \<or> pl_barcode (demo_venta 50) \<noteq> None"
    by (simp add: demo_defs)
  have over: "num_or (pl_quantity (demo_venta 50)) 1
       > foldl (\<lambda>acc b. acc + b_quantity b) 0
           (filter (\<lambda>b. b_product_sku b = event_sku (demo_venta 50)) (batches demo_db1_part002))"
    by (simp add: demo_defs model_defs handleProcessEvent_part002_def base_movement_part002_def)
  have vals: "map b_quantity (batches demo_db1_part002) = [12]"
    "map (\<lambda>m. (m_type m, m_quantity m)) (movements demo_db1_part002) = [(''ingreso'', 12)]"
    "fst (handleProcessEvent_part002 demo_env (demo_venta 50) demo_db1_part002)
       = Rejected (InsufficientStock 50 12)"
    by (simp_all add: demo_defs model_defs handleProcessEvent_part002_def base_movement_part002_def)
  from C1_part002_denied_venta_commits_movement [OF rdy con ev ident over] vals
  show ?thesis by (simp add: demo_venta_def)
qed

subsection \<open>No batch goes below zero\<close>

lemma put_batch_nonneg:
  assumes "\<forall>x\<in>set bs. 0 \<le> b_quantity x" and "0 \<le> b_quantity b"
  shows "\<forall>x\<in>set (put_batch b bs). 0 \<le> b_quantity x"
  using assms by (auto simp: put_batch_def set_insort_key)

lemma consume_nonneg:
  assumes "\<forall>x\<in>set store. 0 \<le> b_quantity x"
  shows "\<forall>x\<in>set (fst (snd (consume bs remaining store used))). 0 \<le> b_quantity x"
  using assms
proof (induction bs arbitrary: remaining store used)
  case Nil
  then show ?case by simp
next
  case (Cons b rest)
  show ?case
  proof (cases "remaining \<le> 0")
    case True
    with Cons.prems show ?thesis by simp
  next
    case False
    let ?take = "min (b_quantity b) remaining"
    have "0 \<le> b_quantity (b\<lparr>b_quantity := b_quantity b - ?take\<rparr>)" by simp
    from put_batch_nonneg [OF Cons.prems this]
    have "\<forall>x\<in>set (fst (snd (consume rest (remaining - ?take)
              (put_batch (b\<lparr>b_quantity := b_quantity b - ?take\<rparr>) store)
              (used @ [\<lparr>u_batchId = b_id b, u_quantity = ?take, u_purchase_price = b_purchase_price b\<rparr>])))).
            0 \<le> b_quantity x"
      by (rule Cons.IH)
    with False show ?thesis by (simp add: Let_def)
  qed
qed

lemma handleProcessEvent_nonneg:
  assumes "\<forall>x\<in>set (batches s). 0 \<le> b_quantity x"
  shows "\<forall>x\<in>set (batches (snd (handleProcessEvent e p s))). 0 \<le> b_quantity x"
proof -
  have c: "\<And>bs r. \<forall>x\<in>set (fst (snd (consume bs r (batches s) []))). 0 \<le> b_quantity x"
    using assms by (rule consume_nonneg)
  show ?thesis
    using assms c [of "productBatches (event_sku p) (batches s)" "max 1 (num_or (pl_quantity p) 0)"]
    by (auto simp: handleProcessEvent_def ingreso_def venta_def devolucion_def add_batch_def
        add_return_def add_movement_def base_movement_def Let_def
        split: option.splits prod.splits)
qed

lemma run_nonneg:
  assumes "\<forall>x\<in>set (batches s). 0 \<le> b_quantity x"
  shows "\<forall>x\<in>set (batches (run evs s)). 0 \<le> b_quantity x"
  using assms
proof (induction evs arbitrary: s)
  case Nil
  then show ?case by simp
next
  case (Cons ev evs)
  obtain e p where ev: "ev = (e, p)" by (cases ev)
  from handleProcessEvent_nonneg [OF Cons.prems]
  have "\<forall>x\<in>set (batches (snd (handleProcessEvent e p s))). 0 \<le> b_quantity x" .
  then show ?case unfolding ev by (simp add: Cons.IH)
qed

lemma totalStock_nonneg:
  assumes "\<forall>x\<in>set bs. 0 \<le> b_quantity x"
  shows "0 \<le> totalStock sku bs"
  unfolding totalStock_sum using assms by (intro sum_list_nonneg) auto

text \<open>
  Claim C3. From a database in which no batch is below zero (the empty one, for instance),
  after every sequence of events handled by \<open>handleProcessEvent\<close>, ingresos and ventas
  among them, no batch has a quantity below zero and the stock of every sku is at least
  zero. In the loop each \<open>take\<close> is \<open>min(batch.quantity, remaining)\<close>, so what is left of
  a batch is never negative.
\<close>

theorem C3_stock_never_negative:
  assumes "\<forall>b\<in>set (batches s). 0 \<le> b_quantity b"
  shows "(\<forall>b\<in>set (batches (run evs s)). 0 \<le> b_quantity b) \<and>
         (\<forall>sku. 0 \<le> totalStock sku (batches (run evs s)))"
proof -
  from assms have "\<forall>x\<in>set (batches (run evs s)). 0 \<le> b_quantity x" by (rule run_nonneg)
  then show ?thesis by (simp add: totalStock_nonneg)
qed

theorem C3_witness:
  "map b_quantity (batches (run demo_run empty_db)) = [0] \<and>
   length (sales (run demo_run empty_db)) = 2 \<and>
   0 \<le> totalStock ''GALX-001'' (batches (run demo_run empty_db))"
proof -
  have h: "\<forall>b\<in>set (batches empty_db). 0 \<le> b_quantity b" by (simp add: empty_db_def)
  have q: "map b_quantity (batches (run demo_run empty_db)) = [0]"
    "length (sales (run demo_run empty_db)) = 2"
    by (simp_all add: demo_defs model_defs dec.simps)
  from C3_stock_never_negative [OF h, of demo_run] q show ?thesis by simp
qed


subsection \<open>The balance of returns and sales\<close>

lemma ingreso_sales_returns:
  "sales (snd (ingreso e p mv s)) = sales s \<and> returns (snd (ingreso e p mv s)) = returns s"
  by (simp add: ingreso_def add_batch_def add_movement_def Let_def split: option.splits)

lemma venta_sales_returns:
  "returns (snd (venta e mv s)) = returns s \<and>
   (sales (snd (venta e mv s)) = sales s \<or>
    (\<exists>sl. sales (snd (venta e mv s)) = sales s @ [sl] \<and> s_quantity sl = m_quantity mv))"
  by (simp add: venta_def add_movement_def Let_def split: option.splits prod.splits)

lemma devolucion_sales_returns:
  "sales (snd (devolucion e mv s)) = sales s \<and>
   (returns (snd (devolucion e mv s)) = returns s \<or>
    (\<exists>r. returns (snd (devolucion e mv s)) = returns s @ [r] \<and> r_sku r = m_sku mv \<and>
         r_quantity r = m_quantity mv \<and>
         m_quantity mv \<le> soldTotal (m_sku mv) (sales s) - returnedTotal (m_sku mv) (returns s)))"
  by (simp add: devolucion_def add_batch_def add_return_def add_movement_def Let_def)

lemma soldTotal_append_mono:
  assumes "0 \<le> s_quantity sl"
  shows "soldTotal sku ss \<le> soldTotal sku (ss @ [sl])"
  using assms by (simp add: soldTotal_sum)

lemma returnedTotal_append:
  "returnedTotal sku (rs @ [r]) = returnedTotal sku rs + (if r_sku r = sku then r_quantity r else 0)"
  by (simp add: returnedTotal_sum)

lemma balance_ingreso:
  assumes "returnedTotal sku (returns s) \<le> soldTotal sku (sales s)"
  shows "returnedTotal sku (returns (snd (ingreso e p mv s))) \<le> soldTotal sku (sales (snd (ingreso e p mv s)))"
  using assms by (simp add: ingreso_sales_returns)

lemma balance_venta:
  assumes "returnedTotal sku (returns s) \<le> soldTotal sku (sales s)" and "0 \<le> m_quantity mv"
  shows "returnedTotal sku (returns (snd (venta e mv s))) \<le> soldTotal sku (sales (snd (venta e mv s)))"
proof -
  from venta_sales_returns [of e mv s]
  have r: "returns (snd (venta e mv s)) = returns s"
    and c: "sales (snd (venta e mv s)) = sales s \<or>
      (\<exists>sl. sales (snd (venta e mv s)) = sales s @ [sl] \<and> s_quantity sl = m_quantity mv)"
    by blast+
  from c show ?thesis
  proof
    assume "sales (snd (venta e mv s)) = sales s"
    with r assms show ?thesis by simp
  next
    assume "\<exists>sl. sales (snd (venta e mv s)) = sales s @ [sl] \<and> s_quantity sl = m_quantity mv"
    then obtain sl where sl: "sales (snd (venta e mv s)) = sales s @ [sl]" "s_quantity sl = m_quantity mv"
      by blast
    with assms have "soldTotal sku (sales s) \<le> soldTotal sku (sales (snd (venta e mv s)))"
      by (simp add: soldTotal_append_mono)
    with r assms show ?thesis by simp
  qed
qed

lemma balance_devolucion:
  assumes "returnedTotal sku (returns s) \<le> soldTotal sku (sales s)"
  shows "returnedTotal sku (returns (snd (devolucion e mv s))) \<le> soldTotal sku (sales (snd (devolucion e mv s)))"
proof -
  from devolucion_sales_returns [of e mv s]
  have r: "sales (snd (devolucion e mv s)) = sales s"
    and c: "returns (snd (devolucion e mv s)) = returns s \<or>
    (\<exists>r. returns (snd (devolucion e mv s)) = returns s @ [r] \<and> r_sku r = m_sku mv \<and>
         r_quantity r = m_quantity mv \<and>
         m_quantity mv \<le> soldTotal (m_sku mv) (sales s) - returnedTotal (m_sku mv) (returns s))"
    by blast+
  from c show ?thesis
  proof
    assume "returns (snd (devolucion e mv s)) = returns s"
    with r assms show ?thesis by simp
  next
    assume "\<exists>r. returns (snd (devolucion e mv s)) = returns s @ [r] \<and> r_sku r = m_sku mv \<and>
         r_quantity r = m_quantity mv \<and>
         m_quantity mv \<le> soldTotal (m_sku mv) (sales s) - returnedTotal (m_sku mv) (returns s)"
    then obtain x where x: "returns (snd (devolucion e mv s)) = returns s @ [x]" "r_sku x = m_sku mv"
      "r_quantity x = m_quantity mv"
      "m_quantity mv \<le> soldTotal (m_sku mv) (sales s) - returnedTotal (m_sku mv) (returns s)"
      by blast
    show ?thesis
    proof (cases "m_sku mv = sku")
      case True
      with x r show ?thesis by (simp add: returnedTotal_append)
    next
      case False
      with x r assms show ?thesis by (simp add: returnedTotal_append)
    qed
  qed
qed

lemma handleProcessEvent_balance:
  assumes bal: "\<forall>sku. returnedTotal sku (returns s) \<le> soldTotal sku (sales s)"
  shows "\<forall>sku. returnedTotal sku (returns (snd (handleProcessEvent e p s)))
               \<le> soldTotal sku (sales (snd (handleProcessEvent e p s)))"
proof
  fix sku
  from bal have b: "returnedTotal sku (returns s) \<le> soldTotal sku (sales s)" by simp
  have q: "0 \<le> m_quantity (base_movement e p)" by simp
  show "returnedTotal sku (returns (snd (handleProcessEvent e p s)))
               \<le> soldTotal sku (sales (snd (handleProcessEvent e p s)))"
    using b balance_ingreso [OF b, of e p "base_movement e p"]
      balance_venta [OF b q, of e] balance_devolucion [OF b, of e "base_movement e p"]
    by (simp add: handleProcessEvent_def Let_def)
qed

lemma run_balance:
  assumes "\<forall>sku. returnedTotal sku (returns s) \<le> soldTotal sku (sales s)"
  shows "\<forall>sku. returnedTotal sku (returns (run evs s)) \<le> soldTotal sku (sales (run evs s))"
  using assms
proof (induction evs arbitrary: s)
  case Nil
  then show ?case by simp
next
  case (Cons ev evs)
  obtain e p where ev: "ev = (e, p)" by (cases ev)
  from handleProcessEvent_balance [OF Cons.prems]
  have "\<forall>sku. returnedTotal sku (returns (snd (handleProcessEvent e p s)))
               \<le> soldTotal sku (sales (snd (handleProcessEvent e p s)))" .
  then show ?case unfolding ev by (simp add: Cons.IH)
qed

lemma devolucion_over_return_rejected:
  assumes ev: "pl_event p = ''devolucion''" and ok: "passes_checks e p"
    and over: "max 1 (num_or (pl_quantity p) 0) + returnedTotal (event_sku p) (returns s)
                 > soldTotal (event_sku p) (sales s)"
  shows "handleProcessEvent e p s = (Rejected OverReturn, s)"
  using ev ok over
  by (auto simp: handleProcessEvent_def devolucion_def passes_checks_def Let_def)

text \<open>
  Claim C4, as amended. For every sku, in every state reached from the empty database by
  events handled by \<open>handleProcessEvent\<close> alone, the returned quantities sum to at most
  the quantities of the completed sales; and a generic devolucion that passes the
  handler's checks with \<open>requestedQty + returnedTotal > soldTotal\<close> is rejected as an
  over-return and leaves the database as it was.
\<close>

theorem C4_return_balance_of_processed_events:
  "(\<forall>sku. returnedTotal sku (returns (run evs empty_db)) \<le> soldTotal sku (sales (run evs empty_db))) \<and>
   (pl_event p = ''devolucion'' \<and> passes_checks e p \<and>
    max 1 (num_or (pl_quantity p) 0) + returnedTotal (event_sku p) (returns s)
       > soldTotal (event_sku p) (sales s)
    \<longrightarrow> handleProcessEvent e p s = (Rejected OverReturn, s))"
proof -
  have "\<forall>sku. returnedTotal sku (returns empty_db) \<le> soldTotal sku (sales empty_db)"
    by (simp add: empty_db_def soldTotal_sum returnedTotal_sum)
  then have "\<forall>sku. returnedTotal sku (returns (run evs empty_db)) \<le> soldTotal sku (sales (run evs empty_db))"
    by (rule run_balance)
  then show ?thesis using devolucion_over_return_rejected by blast
qed


theorem C4_witness:
  "returnedTotal ''GALX-001'' (returns demo_db_returned) \<le> soldTotal ''GALX-001'' (sales demo_db_returned) \<and>
   returnedTotal ''GALX-001'' (returns demo_db_returned) = 3 \<and>
   soldTotal ''GALX-001'' (sales demo_db_returned) = 12 \<and>
   handleProcessEvent demo_env (demo_devolucion 10) demo_db_returned = (Rejected OverReturn, demo_db_returned)"
proof -
  have r: "run [(demo_env, demo_ingreso), (demo_env, demo_venta 12), (demo_env, demo_devolucion 3)] empty_db
      = demo_db_returned"
    by (simp add: demo_db_returned_def demo_db_sold_out_def demo_db1_def)
  have v: "returnedTotal ''GALX-001'' (returns demo_db_returned) = 3"
    "soldTotal ''GALX-001'' (sales demo_db_returned) = 12"
    by (simp_all add: demo_defs model_defs)
  have h: "pl_event (demo_devolucion 10) = ''devolucion'' \<and> passes_checks demo_env (demo_devolucion 10) \<and>
    max 1 (num_or (pl_quantity (demo_devolucion 10)) 0)
      + returnedTotal (event_sku (demo_devolucion 10)) (returns demo_db_returned)
       > soldTotal (event_sku (demo_devolucion 10)) (sales demo_db_returned)"
    using v by (simp add: demo_devolucion_def demo_venta_def demo_env_def passes_checks_def event_sku_def)
  from C4_return_balance_of_processed_events
    [of "[(demo_env, demo_ingreso), (demo_env, demo_venta 12), (demo_env, demo_devolucion 3)]"
        "demo_devolucion 10" demo_env demo_db_returned] h r v
  show ?thesis by simp
qed

text \<open>
  The claim as stated fails once \<open>handleReturn\<close> or \<open>handleUndoSale\<close> is used: neither
  looks at the balance. Returning the sample batch of 12 units to the supplier records a
  return of 12 with no sale at all, and undoing a sale of 5 records a return of 5 while the
  sale stops counting as completed.
\<close>

theorem C4_counterexample:
  "returnedTotal ''GALX-001'' (returns demo_db_inv_returned) = 12 \<and>
   soldTotal ''GALX-001'' (sales demo_db_inv_returned) = 0 \<and>
   fst (handleUndoSale demo_env (demo_undo 5) demo_db_sold5) = Accepted \<and>
   returnedTotal ''GALX-001'' (returns demo_db_undone) = 5 \<and>
   soldTotal ''GALX-001'' (sales demo_db_undone) = 0"
  by (simp add: demo_defs model_defs handleReturn_def handleUndoSale_def
      product_name_or_sku_def Let_def)

subsection \<open>The batch of a generic return\<close>

lemma devolucion_accepted:
  assumes acc: "handleProcessEvent e p s = (Accepted, s')" and ev: "pl_event p = ''devolucion''"
  shows "\<exists>r b. returns s' = returns s @ [r] \<and> r_id r = return_gen s \<and> r_sku r = event_sku p \<and>
     r_quantity r = max 1 (num_or (pl_quantity p) 0) \<and>
     batches s' = batches s @ [b] \<and> b_lot b = ''DEV-'' @ dec (return_gen s) \<and>
     b_product_sku b = event_sku p \<and> b_quantity b = max 1 (num_or (pl_quantity p) 0) \<and>
     sales s' = sales s \<and> products s' = products s"
  using acc ev
  by (auto simp: handleProcessEvent_def devolucion_def add_batch_def add_return_def
      add_movement_def Let_def split: if_splits)

text \<open>
  Claim C8, as amended. An accepted generic devolucion appends a batch tagged
  \<open>DEV-{returnId}\<close> that holds the returned quantity. As its lot starts with \<open>DEV-\<close>, the
  batch is left out of the stock total a venta is checked against and of the batches a
  venta draws from: for every sku both are what they were before the return.
\<close>

theorem C8_devolucion_batch_not_saleable:
  assumes acc: "handleProcessEvent e p s = (Accepted, s')" and ev: "pl_event p = ''devolucion''"
  shows "\<exists>b. batches s' = batches s @ [b] \<and> b_lot b = ''DEV-'' @ dec (return_gen s) \<and>
     b_product_sku b = event_sku p \<and> b_quantity b = max 1 (num_or (pl_quantity p) 0) \<and>
     (\<forall>sku. totalStock sku (batches s') = totalStock sku (batches s)) \<and>
     (\<forall>sku. productBatches sku (batches s') = productBatches sku (batches s))"
proof -
  from devolucion_accepted [OF acc ev] obtain b where
    b: "batches s' = batches s @ [b]" "b_lot b = ''DEV-'' @ dec (return_gen s)"
      "b_product_sku b = event_sku p" "b_quantity b = max 1 (num_or (pl_quantity p) 0)"
    by blast
  from b(2) have dev: "startsWith (b_lot b) ''DEV-''" by (simp add: startsWith_def)
  from b(1) dev have "\<forall>sku. totalStock sku (batches s') = totalStock sku (batches s)"
    by (simp add: totalStock_sum)
  moreover from b(1) dev have "\<forall>sku. productBatches sku (batches s') = productBatches sku (batches s)"
    by (simp add: productBatches_def)
  ultimately show ?thesis using b by blast
qed

theorem C8_witness:
  "map (\<lambda>b. (b_lot b, b_quantity b)) (batches demo_db_returned) = [(''L202510'', 0), (''DEV-'' @ dec 1, 3)] \<and>
   totalStock ''GALX-001'' (batches demo_db_returned) = 0 \<and>
   productBatches ''GALX-001'' (batches demo_db_returned) = []"
proof -
  have acc: "handleProcessEvent demo_env (demo_devolucion 3) demo_db_sold_out = (Accepted, demo_db_returned)"
    by (simp add: demo_defs model_defs)
  have ev: "pl_event (demo_devolucion 3) = ''devolucion''" by (simp add: demo_defs)
  have before: "map (\<lambda>b. (b_lot b, b_quantity b)) (batches demo_db_sold_out) = [(''L202510'', 0)]"
    "totalStock ''GALX-001'' (batches demo_db_sold_out) = 0"
    "productBatches ''GALX-001'' (batches demo_db_sold_out) = []"
    "return_gen demo_db_sold_out = 1"
    by (simp_all add: demo_defs model_defs)
  from C8_devolucion_batch_not_saleable [OF acc ev] before
  show ?thesis by (auto simp: demo_devolucion_def demo_venta_def)
qed

text \<open>
  The claim as stated fails: after the whole stock of 12 is sold and 3 units are returned,
  the database holds the batch \<open>DEV-1\<close> with 3 units, and a venta of 1 unit is denied
  with the stock counted as 0.
\<close>

theorem C8_counterexample:
  "fst (handleProcessEvent demo_env (demo_devolucion 3) demo_db_sold_out) = Accepted \<and>
   map (\<lambda>b. (b_product_sku b, b_lot b, b_quantity b)) (batches demo_db_returned)
     = [(''GALX-001'', ''L202510'', 0), (''GALX-001'', ''DEV-'' @ dec 1, 3)] \<and>
   fst (handleProcessEvent demo_env (demo_venta 1) demo_db_returned) = Rejected (InsufficientStock 1 0)"
  by (simp add: demo_defs model_defs)

subsection \<open>A sale beyond the stock\<close>

text \<open>
  In App.jsx a venta for more than the stock writes nothing, whichever check turns it
  down; when the earlier checks pass and the product is known, the toast is the one for
  insufficient stock.
\<close>

lemma venta_over_stock_unchanged:
  assumes ev: "pl_event p = ''venta''"
    and over: "max 1 (num_or (pl_quantity p) 0) > totalStock (event_sku p) (batches s)"
  shows "snd (handleProcessEvent e p s) = s \<and> fst (handleProcessEvent e p s) \<noteq> Accepted \<and>
     (passes_checks e p \<and> salesSensorConnected e \<and> products s (event_sku p) \<noteq> None \<longrightarrow>
        fst (handleProcessEvent e p s)
          = Rejected (InsufficientStock (max 1 (num_or (pl_quantity p) 0)) (totalStock (event_sku p) (batches s))))"
  using ev over
  by (auto simp: handleProcessEvent_def venta_def passes_checks_def Let_def split: option.splits)

subsection \<open>The order of consumption\<close>

lemma insort_key_lex:
  fixes f :: "'a \<Rightarrow> nat" and g :: "'a \<Rightarrow> nat"
  assumes "\<forall>y\<in>set ys. g x \<le> g y"
  shows "insort_key f x ys = insort_key (\<lambda>b. (f b, g b)) x ys"
  using assms by (induction ys) auto

lemma sort_key_lex:
  fixes f :: "'a \<Rightarrow> nat" and g :: "'a \<Rightarrow> nat"
  assumes "sorted (map g xs)"
  shows "sort_key f xs = sort_key (\<lambda>b. (f b, g b)) xs"
  using assms
proof (induction xs)
  case Nil
  then show ?case by simp
next
  case (Cons x xs)
  then have le: "\<forall>y\<in>set (sort_key (\<lambda>b. (f b, g b)) xs). g x \<le> g y" by simp
  from Cons have "sort_key f xs = sort_key (\<lambda>b. (f b, g b)) xs" by simp
  with insort_key_lex [OF le, of f] show ?case by simp
qed

lemma productBatches_spec:
  assumes "sorted_wrt (<) (map b_id bs)"
  shows "productBatches sku bs = eligibleForSale_spec sku bs"
proof -
  from assms have "sorted (map b_id bs)" by (rule strict_sorted_imp_sorted)
  then have "sorted (map b_id (filter (\<lambda>b. b_product_sku b = sku \<and> 0 < b_quantity b \<and>
      \<not> startsWith (b_lot b) ''DEV-'') bs))"
    by (rule sorted_filter)
  then show ?thesis
    unfolding productBatches_def eligibleForSale_spec_def by (rule sort_key_lex)
qed

subsection \<open>The walk over the batches\<close>

lemma taken_from_Nil [simp]: "taken_from [] i = 0"
  by (simp add: taken_from_def)

lemma taken_from_Cons [simp]:
  "taken_from (u # us) i = (if u_batchId u = i then u_quantity u else 0) + taken_from us i"
  by (simp add: taken_from_def)

lemma fifo_spec_ids: "u \<in> set (fifo_spec el r) \<Longrightarrow> u_batchId u \<in> b_id ` set el"
  by (induction el arbitrary: r) (auto split: if_splits)

lemma taken_from_other:
  assumes "i \<notin> b_id ` set el"
  shows "taken_from (fifo_spec el r) i = 0"
proof -
  from assms fifo_spec_ids [of _ el r]
  have "filter (\<lambda>u. u_batchId u = i) (fifo_spec el r) = []"
    by (auto simp: filter_empty_conv)
  then show ?thesis by (simp add: taken_from_def)
qed

lemma put_batch_present:
  assumes "b \<in> set st"
  shows "put_batch (b\<lparr>b_quantity := q\<rparr>) st
           = map (\<lambda>x. if b_id x = b_id b then b\<lparr>b_quantity := q\<rparr> else x) st"
proof -
  from assms have "list_ex (\<lambda>x. b_id x = b_id b) st" by (auto simp: list_ex_iff)
  then show ?thesis by (simp add: put_batch_def)
qed

lemma consume_spec:
  assumes "distinct (map b_id st)" and "distinct (map b_id el)" and "set el \<subseteq> set st"
    and "0 \<le> r"
  shows "consume el r st used =
     (r - sum_list (map u_quantity (fifo_spec el r)),
      map (\<lambda>b. b\<lparr>b_quantity := b_quantity b - taken_from (fifo_spec el r) (b_id b)\<rparr>) st,
      used @ fifo_spec el r)"
  using assms
proof (induction el arbitrary: r st used)
  case Nil
  then show ?case by simp
next
  case (Cons b rest)
  show ?case
  proof (cases "r = 0")
    case True
    then show ?thesis by simp
  next
    case False
    with Cons.prems have pos: "\<not> r \<le> 0" by simp
    let ?take = "min (b_quantity b) r"
    let ?b' = "b\<lparr>b_quantity := b_quantity b - ?take\<rparr>"
    let ?st1 = "map (\<lambda>x. if b_id x = b_id b then ?b' else x) st"
    from Cons.prems have bin: "b \<in> set st" by simp
    have put: "put_batch ?b' st = ?st1" using bin by (rule put_batch_present)
    have ids: "map b_id ?st1 = map b_id st" by (induction st) auto
    have d1: "distinct (map b_id ?st1)" by (simp only: ids Cons.prems(1))
    have d2: "distinct (map b_id rest)" using Cons.prems(2) by simp
    have notb: "b_id b \<notin> b_id ` set rest" using Cons.prems(2) by auto
    have sub: "set rest \<subseteq> set ?st1"
    proof
      fix x assume x: "x \<in> set rest"
      with notb have "b_id x \<noteq> b_id b" by (metis imageI)
      moreover from x Cons.prems(3) have "x \<in> set st" by auto
      ultimately show "x \<in> set ?st1" by (auto simp: image_iff intro!: bexI [of _ x])
    qed
    have r': "0 \<le> r - ?take" by simp
    note IH = Cons.IH [OF d1 d2 sub r',
        of "used @ [\<lparr>u_batchId = b_id b, u_quantity = ?take, u_purchase_price = b_purchase_price b\<rparr>]"]
    have same: "\<And>x. x \<in> set st \<Longrightarrow> b_id x = b_id b \<Longrightarrow> x = b"
      using Cons.prems(1) bin by (meson distinct_map inj_onD)
    have store: "map (\<lambda>x. x\<lparr>b_quantity := b_quantity x - taken_from (fifo_spec rest (r - ?take)) (b_id x)\<rparr>) ?st1
        = map (\<lambda>x. x\<lparr>b_quantity := b_quantity x - taken_from (fifo_spec (b # rest) r) (b_id x)\<rparr>) st"
      using False same taken_from_other [OF notb, of "r - ?take"]
      by (auto simp: Let_def)
    from pos False IH put store show ?thesis by (simp add: Let_def)
  qed
qed

lemma fifo_spec_covers:
  assumes "0 \<le> r" and "r \<le> sum_list (map b_quantity el)"
  shows "sum_list (map u_quantity (fifo_spec el r)) = r"
  using assms
proof (induction el arbitrary: r)
  case Nil
  then show ?case by simp
next
  case (Cons b rest)
  show ?case
  proof (cases "r = 0")
    case True
    then show ?thesis by simp
  next
    case False
    show ?thesis
    proof (cases "b_quantity b \<le> r")
      case True
      then have m: "min (b_quantity b) r = b_quantity b" by simp
      from Cons.prems True have "0 \<le> r - b_quantity b" "r - b_quantity b \<le> sum_list (map b_quantity rest)"
        by simp_all
      then have "sum_list (map u_quantity (fifo_spec rest (r - b_quantity b))) = r - b_quantity b"
        by (rule Cons.IH)
      with False m show ?thesis by simp
    next
      case False
      then have m: "min (b_quantity b) r = r" by simp
      have "fifo_spec rest 0 = []" by (cases rest) simp_all
      with \<open>r \<noteq> 0\<close> m show ?thesis by simp
    qed
  qed
qed


lemma distinct_map_insort_key:
  "distinct (map g (insort_key f x xs)) = (g x \<notin> g ` set xs \<and> distinct (map g xs))"
  by (induction xs) (auto simp: set_insort_key)

lemma distinct_map_sort_key: "distinct (map g (sort_key f xs)) = distinct (map g xs)"
  by (induction xs) (simp_all add: distinct_map_insort_key)

lemma sum_list_insort_key:
  fixes h :: "'a \<Rightarrow> rat"
  shows "sum_list (map h (insort_key f x xs)) = h x + sum_list (map h xs)"
  by (induction xs) simp_all

lemma sum_list_sort_key:
  fixes h :: "'a \<Rightarrow> rat"
  shows "sum_list (map h (sort_key f xs)) = sum_list (map h xs)"
  by (induction xs) (simp_all add: sum_list_insort_key)

lemma sum_list_positive_part:
  fixes h :: "'a \<Rightarrow> rat"
  shows "sum_list (map h (filter P xs)) \<le> sum_list (map h (filter (\<lambda>x. P x \<and> 0 < h x) xs))"
  by (induction xs) auto

lemma totalStock_le_productBatches:
  "totalStock sku bs \<le> sum_list (map b_quantity (productBatches sku bs))"
proof -
  have "sum_list (map b_quantity (filter (\<lambda>b. b_product_sku b = sku \<and> \<not> startsWith (b_lot b) ''DEV-'') bs))
      \<le> sum_list (map b_quantity (filter (\<lambda>b. (b_product_sku b = sku \<and> \<not> startsWith (b_lot b) ''DEV-'')
             \<and> 0 < b_quantity b) bs))"
    by (rule sum_list_positive_part)
  also have "(\<lambda>b. (b_product_sku b = sku \<and> \<not> startsWith (b_lot b) ''DEV-'') \<and> 0 < b_quantity b)
      = (\<lambda>b. b_product_sku b = sku \<and> 0 < b_quantity b \<and> \<not> startsWith (b_lot b) ''DEV-'')"
    by auto
  finally show ?thesis
    by (simp add: totalStock_sum productBatches_def sum_list_sort_key)
qed

text \<open>What the branch of a venta does when it accepts.\<close>

lemma venta_Accepted:
  assumes "venta e mv s = (Accepted, s')"
  shows "\<exists>pr. products s (m_sku mv) = Some pr \<and>
     m_quantity mv \<le> totalStock (m_sku mv) (batches s) \<and>
     get_sale (KStr (''SALE-'' @ dec (now_sale_id e))) (sales s) = None \<and>
     products s' = products s \<and> returns s' = returns s \<and> return_gen s' = return_gen s \<and>
     batch_gen s' = batch_gen s \<and>
     batches s' = fst (snd (consume (productBatches (m_sku mv) (batches s)) (m_quantity mv) (batches s) [])) \<and>
     (\<exists>sl. sales s' = sales s @ [sl] \<and> s_id sl = KStr (''SALE-'' @ dec (now_sale_id e)) \<and>
        s_sku sl = m_sku mv \<and> s_quantity sl = m_quantity mv \<and> s_status sl = ''completed'' \<and>
        s_batches_used sl
          = snd (snd (consume (productBatches (m_sku mv) (batches s)) (m_quantity mv) (batches s) [])))"
  using assms
  by (auto simp: venta_def add_movement_def Let_def split_def get_sale_def find_None_iff list_ex_iff
      split: if_splits option.splits)

lemma venta_fifo:
  assumes ko: "sorted_wrt (<) (map b_id (batches s))"
    and acc: "handleProcessEvent e p s = (Accepted, s')"
    and ev: "pl_event p = ''venta''"
  shows "\<exists>sl. sales s' = sales s @ [sl] \<and>
     s_id sl = KStr (''SALE-'' @ dec (now_sale_id e)) \<and>
     get_sale (s_id sl) (sales s) = None \<and>
     s_sku sl = event_sku p \<and> s_quantity sl = max 1 (num_or (pl_quantity p) 0) \<and>
     s_status sl = ''completed'' \<and>
     s_batches_used sl
       = fifo_spec (eligibleForSale_spec (event_sku p) (batches s)) (max 1 (num_or (pl_quantity p) 0)) \<and>
     sum_list (map u_quantity (s_batches_used sl)) = max 1 (num_or (pl_quantity p) 0) \<and>
     batches s' = map (\<lambda>b. b\<lparr>b_quantity := b_quantity b - taken_from (s_batches_used sl) (b_id b)\<rparr>) (batches s) \<and>
     batch_gen s' = batch_gen s \<and> products s' = products s \<and>
     returns s' = returns s \<and> return_gen s' = return_gen s"
proof -
  let ?mv = "base_movement e p"
  let ?q = "max 1 (num_or (pl_quantity p) 0)"
  let ?el = "productBatches (event_sku p) (batches s)"
  from acc ev have v: "venta e ?mv s = (Accepted, s')"
    by (simp add: handleProcessEvent_def Let_def split: if_splits)
  from venta_Accepted [OF v] obtain sl where
    le: "?q \<le> totalStock (event_sku p) (batches s)"
    and fresh: "get_sale (KStr (''SALE-'' @ dec (now_sale_id e))) (sales s) = None"
    and frame: "products s' = products s" "returns s' = returns s" "return_gen s' = return_gen s"
      "batch_gen s' = batch_gen s"
    and bs: "batches s' = fst (snd (consume ?el ?q (batches s) []))"
    and sl: "sales s' = sales s @ [sl]" "s_id sl = KStr (''SALE-'' @ dec (now_sale_id e))"
      "s_sku sl = event_sku p" "s_quantity sl = ?q" "s_status sl = ''completed''"
      "s_batches_used sl = snd (snd (consume ?el ?q (batches s) []))"
    by auto
  from ko have d: "distinct (map b_id (batches s))" by (simp add: strict_sorted_iff)
  then have del: "distinct (map b_id ?el)"
    by (simp add: productBatches_def distinct_map_sort_key distinct_map_filter)
  have sub: "set ?el \<subseteq> set (batches s)" by (auto simp: productBatches_def)
  have q0: "0 \<le> ?q" by simp
  note c = consume_spec [OF d del sub q0, of "[]"]
  have el: "?el = eligibleForSale_spec (event_sku p) (batches s)"
    using ko by (rule productBatches_spec)
  from le totalStock_le_productBatches [of "event_sku p" "batches s"]
  have "?q \<le> sum_list (map b_quantity ?el)" by simp
  with q0 have cov: "sum_list (map u_quantity (fifo_spec ?el ?q)) = ?q" by (rule fifo_spec_covers)
  from c sl(6) have used: "s_batches_used sl = fifo_spec ?el ?q" by simp
  from c bs used have store: "batches s' =
      map (\<lambda>b. b\<lparr>b_quantity := b_quantity b - taken_from (s_batches_used sl) (b_id b)\<rparr>) (batches s)"
    by simp
  from sl fresh frame used cov store el show ?thesis by auto
qed

subsection \<open>The key order is kept\<close>

text \<open>
  Every database the handlers reach from the empty one has its batches in key order; the
  hypothesis of the claims about the FIFO walk excludes no state of the app.
\<close>

lemma key_order_empty: "key_order empty_db"
  by (simp add: key_order_def empty_db_def)

lemma key_order_cong:
  assumes "batches s' = batches s" and "batch_gen s' = batch_gen s"
  shows "key_order s' = key_order s"
  using assms by (simp add: key_order_def)

lemma key_order_add_batch:
  assumes "key_order s"
  shows "key_order (add_batch b s)"
  using assms
  by (auto simp: key_order_def add_batch_def sorted_wrt_append list_all_iff less_Suc_eq)

lemma key_order_update_quantities:
  assumes "key_order s" and "batches s' = map (\<lambda>b. b\<lparr>b_quantity := h b\<rparr>) (batches s)"
    and "batch_gen s' = batch_gen s"
  shows "key_order s'"
  using assms by (simp add: key_order_def comp_def list_all_iff)

lemma ingreso_key_order:
  assumes "key_order s"
  shows "key_order (snd (ingreso e p mv s))"
proof -
  let ?b = "\<lparr>b_id = 0, b_product_sku = m_sku mv,
      b_lot = str_or (m_lot mv) (''INIT-'' @ dec (now_batch e)), b_expiry = m_expiry mv,
      b_quantity = m_quantity mv, b_purchase_price = m_price mv, b_created_at = now_batch e,
      b_return_id = None, b_status = None\<rparr>"
  have "batches (snd (ingreso e p mv s)) = batches (add_batch ?b s)"
    "batch_gen (snd (ingreso e p mv s)) = batch_gen (add_batch ?b s)"
    by (simp_all add: ingreso_def add_batch_def add_movement_def Let_def split: option.splits)
  then have "key_order (snd (ingreso e p mv s)) = key_order (add_batch ?b s)" by (rule key_order_cong)
  with key_order_add_batch [OF assms] show ?thesis by simp
qed

lemma devolucion_key_order:
  assumes "key_order s"
  shows "key_order (snd (devolucion e mv s))"
proof (cases "m_quantity mv > soldTotal (m_sku mv) (sales s) - returnedTotal (m_sku mv) (returns s)")
  case True
  with assms show ?thesis by (simp add: devolucion_def)
next
  case False
  let ?b = "\<lparr>b_id = 0, b_product_sku = m_sku mv, b_lot = ''DEV-'' @ dec (return_gen s),
      b_expiry = m_expiry mv, b_quantity = m_quantity mv, b_purchase_price = m_price mv,
      b_created_at = now_batch e, b_return_id = Some (return_gen s), b_status = None\<rparr>"
  from False have "batches (snd (devolucion e mv s)) = batches (add_batch ?b s)"
    "batch_gen (snd (devolucion e mv s)) = batch_gen (add_batch ?b s)"
    by (simp_all add: devolucion_def add_batch_def add_return_def add_movement_def Let_def)
  then have "key_order (snd (devolucion e mv s)) = key_order (add_batch ?b s)" by (rule key_order_cong)
  with key_order_add_batch [OF assms] show ?thesis by simp
qed

lemma venta_rejected_unchanged:
  assumes "fst (venta e mv s) \<noteq> Accepted"
  shows "snd (venta e mv s) = s"
  using assms
  by (auto simp: venta_def Let_def split_def split: if_splits option.splits)

lemma venta_key_order:
  assumes ko: "key_order s" and q: "0 \<le> m_quantity mv"
  shows "key_order (snd (venta e mv s))"
proof (cases "fst (venta e mv s) = Accepted")
  case False
  with ko venta_rejected_unchanged show ?thesis by simp
next
  case True
  then have v: "venta e mv s = (Accepted, snd (venta e mv s))" by (simp add: prod_eq_iff)
  let ?el = "productBatches (m_sku mv) (batches s)"
  from venta_Accepted [OF v] have
    bs: "batches (snd (venta e mv s)) = fst (snd (consume ?el (m_quantity mv) (batches s) []))"
    and gen: "batch_gen (snd (venta e mv s)) = batch_gen s" by auto
  from ko have d: "distinct (map b_id (batches s))" by (simp add: key_order_def strict_sorted_iff)
  then have del: "distinct (map b_id ?el)"
    by (simp add: productBatches_def distinct_map_sort_key distinct_map_filter)
  have sub: "set ?el \<subseteq> set (batches s)" by (auto simp: productBatches_def)
  from consume_spec [OF d del sub q, of "[]"] bs
  have "batches (snd (venta e mv s))
      = map (\<lambda>b. b\<lparr>b_quantity := b_quantity b - taken_from (fifo_spec ?el (m_quantity mv)) (b_id b)\<rparr>) (batches s)"
    by simp
  from key_order_update_quantities [OF ko this gen] show ?thesis .
qed

lemma handleProcessEvent_key_order:
  assumes "key_order s"
  shows "key_order (snd (handleProcessEvent e p s))"
proof -
  have q: "0 \<le> m_quantity (base_movement e p)" by simp
  from assms ingreso_key_order [OF assms, of e p "base_movement e p"]
    venta_key_order [OF assms q, of e] devolucion_key_order [OF assms, of e "base_movement e p"]
  show ?thesis by (simp add: handleProcessEvent_def Let_def)
qed

lemma run_key_order:
  assumes "key_order s"
  shows "key_order (run evs s)"
  using assms
proof (induction evs arbitrary: s)
  case Nil
  then show ?case by simp
next
  case (Cons ev evs)
  obtain e p where ev: "ev = (e, p)" by (cases ev)
  from handleProcessEvent_key_order [OF Cons.prems]
  have "key_order (snd (handleProcessEvent e p s))" .
  then show ?case unfolding ev by (simp add: Cons.IH)
qed

lemma handleUndoSale_key_order:
  assumes "key_order s"
  shows "key_order (snd (handleUndoSale e u s))"
proof (cases "fst (handleUndoSale e u s) = Accepted")
  case False
  then have "snd (handleUndoSale e u s) = s"
    by (simp add: handleUndoSale_def Let_def split: if_splits option.splits)
  with assms show ?thesis by simp
next
  case True
  then obtain sl where sl: "get_sale (se_id u) (sales s) = Some sl"
    by (auto simp: handleUndoSale_def split: if_splits option.splits)
  let ?b = "\<lparr>b_id = 0, b_product_sku = se_sku u, b_lot = ''UNDO-'' @ dec (return_gen s),
      b_expiry = None, b_quantity = se_quantity u,
      b_purchase_price = (case s_batches_used sl of [] \<Rightarrow> 0 | x # xs \<Rightarrow> u_purchase_price x),
      b_created_at = now_batch e, b_return_id = Some (return_gen s), b_status = None\<rparr>"
  from True sl have "batches (snd (handleUndoSale e u s)) = batches (add_batch ?b s)"
    "batch_gen (snd (handleUndoSale e u s)) = batch_gen (add_batch ?b s)"
    by (simp_all add: handleUndoSale_def add_batch_def add_return_def add_movement_def Let_def
        split: if_splits)
  then have "key_order (snd (handleUndoSale e u s)) = key_order (add_batch ?b s)" by (rule key_order_cong)
  with key_order_add_batch [OF assms] show ?thesis by simp
qed

lemma put_batch_ids:
  assumes "get_batch i bs = Some x" and "b_id b = i"
  shows "map b_id (put_batch b bs) = map b_id bs"
proof -
  from assms have "list_ex (\<lambda>y. b_id y = b_id b) bs"
    by (auto simp: get_batch_def list_ex_iff find_Some_iff)
  moreover have "map b_id (map (\<lambda>y. if b_id y = b_id b then b else y) bs) = map b_id bs"
    by (induction bs) auto
  ultimately show ?thesis by (simp add: put_batch_def)
qed

lemma handleReturn_key_order:
  assumes "key_order s"
  shows "key_order (snd (handleReturn e batch mode s))"
proof (cases "fst (handleReturn e batch mode s) = Accepted")
  case False
  then have "snd (handleReturn e batch mode s) = s"
    by (auto simp: handleReturn_def Let_def split: if_splits option.splits)
  with assms show ?thesis by simp
next
  case True
  show ?thesis
  proof (cases "mode = ''ventas''")
    case ventas: True
    let ?b = "\<lparr>b_id = 0, b_product_sku = b_product_sku batch, b_lot = ''DEV-SALE-'' @ dec (return_gen s),
      b_expiry = b_expiry batch, b_quantity = b_quantity batch,
      b_purchase_price = b_purchase_price batch, b_created_at = now_batch e,
      b_return_id = Some (return_gen s), b_status = Some ''returned''\<rparr>"
    from True ventas have "batches (snd (handleReturn e batch mode s)) = batches (add_batch ?b s)"
      "batch_gen (snd (handleReturn e batch mode s)) = batch_gen (add_batch ?b s)"
      by (simp_all add: handleReturn_def add_batch_def add_return_def add_movement_def Let_def
          split: if_splits)
    then have "key_order (snd (handleReturn e batch mode s)) = key_order (add_batch ?b s)"
      by (rule key_order_cong)
    with key_order_add_batch [OF assms] show ?thesis by simp
  next
    case other: False
    with True obtain x where x: "get_batch (b_id batch) (batches s) = Some x"
      by (auto simp: handleReturn_def split: if_splits option.splits)
    then have idx: "b_id x = b_id batch" by (auto simp: get_batch_def find_Some_iff)
    let ?x' = "x\<lparr>b_lot := ''DEV-INV-'' @ dec (return_gen s), b_status := Some ''returned'',
      b_return_id := Some (return_gen s), b_quantity := 0\<rparr>"
    from True other x have bs: "batches (snd (handleReturn e batch mode s)) = put_batch ?x' (batches s)"
      and gen: "batch_gen (snd (handleReturn e batch mode s)) = batch_gen s"
      by (simp_all add: handleReturn_def add_return_def add_movement_def Let_def split: if_splits)
    from idx have "b_id ?x' = b_id batch" by simp
    from put_batch_ids [OF x this] bs
    have "map b_id (batches (snd (handleReturn e batch mode s))) = map b_id (batches s)" by simp
    with gen assms show ?thesis
      by (simp add: key_order_def list_all_iff) (metis (no_types, lifting) imageE image_eqI list.set_map)
  qed
qed

subsection \<open>First in, first out\<close>

text \<open>
  Claim C2. With the batches store in key order, an accepted venta appends one sale whose
  \<open>batches_used\<close> is the specification's walk over the eligible batches of the sku
  (quantity above 0, lot not starting with \<open>DEV-\<close>) in ascending order of \<open>created_at\<close>,
  ties broken by ascending id, taking \<open>min(batch.remaining, stillNeeded)\<close> from each; the
  quantities taken add up to the requested quantity, and every batch of the store is
  decremented by exactly what the list takes from it. The witness is the example of the
  claim: B1 and B2 with 5 units each and a venta of 7 leave 0 and 3, B1 listed first.
\<close>

theorem C2_fifo_consumption:
  assumes ko: "key_order s"
    and acc: "handleProcessEvent e p s = (Accepted, s')"
    and ev: "pl_event p = ''venta''"
  shows "\<exists>sl. sales s' = sales s @ [sl] \<and>
     s_batches_used sl
       = fifo_spec (eligibleForSale_spec (event_sku p) (batches s)) (max 1 (num_or (pl_quantity p) 0)) \<and>
     sum_list (map u_quantity (s_batches_used sl)) = max 1 (num_or (pl_quantity p) 0) \<and>
     batches s' = map (\<lambda>b. b\<lparr>b_quantity := b_quantity b - taken_from (s_batches_used sl) (b_id b)\<rparr>) (batches s)"
proof -
  from ko have "sorted_wrt (<) (map b_id (batches s))" by (simp add: key_order_def)
  from venta_fifo [OF this acc ev] show ?thesis by blast
qed

theorem C2_witness:
  "map (\<lambda>b. (b_id b, b_lot b, b_created_at b, b_quantity b)) (batches demo_db_two)
     = [(1, ''B1'', 100, 5), (2, ''B2'', 200, 5)] \<and>
   map (\<lambda>b. (b_id b, b_quantity b)) (batches (snd (handleProcessEvent demo_env (demo_venta 7) demo_db_two)))
     = [(1, 0), (2, 3)] \<and>
   map (\<lambda>sl. map (\<lambda>u. (u_batchId u, u_quantity u)) (s_batches_used sl))
     (sales (snd (handleProcessEvent demo_env (demo_venta 7) demo_db_two)))
     = [[(1, 5), (2, 2)]]"
proof -
  have ko: "key_order demo_db_two"
    by (simp add: demo_db_two_def demo_defs model_defs key_order_def)
  have acc: "handleProcessEvent demo_env (demo_venta 7) demo_db_two
      = (Accepted, snd (handleProcessEvent demo_env (demo_venta 7) demo_db_two))"
    by (simp add: demo_db_two_def demo_defs model_defs)
  have ev: "pl_event (demo_venta 7) = ''venta''" by (simp add: demo_defs)
  have b: "map (\<lambda>b. (b_id b, b_lot b, b_created_at b, b_quantity b)) (batches demo_db_two)
     = [(1, ''B1'', 100, 5), (2, ''B2'', 200, 5)]"
    "sales demo_db_two = []"
    by (simp_all add: demo_db_two_def demo_defs model_defs)
  have r: "map (\<lambda>b. (b_id b, b_quantity b)) (batches (snd (handleProcessEvent demo_env (demo_venta 7) demo_db_two)))
     = [(1, 0), (2, 3)]"
    "map (\<lambda>sl. map (\<lambda>u. (u_batchId u, u_quantity u)) (s_batches_used sl))
     (sales (snd (handleProcessEvent demo_env (demo_venta 7) demo_db_two)))
     = [[(1, 5), (2, 2)]]"
    by (simp_all add: demo_db_two_def demo_defs model_defs)
  from C2_fifo_consumption [OF ko acc ev] b r show ?thesis by simp
qed


text \<open>
  The order is by \<open>created_at\<close>, not by id: entered in the other order, B1 (now id 2) is
  still emptied first. With equal \<open>created_at\<close> the smaller id goes first.
\<close>

lemma fifo_order_examples:
  "map (\<lambda>b. (b_id b, b_lot b, b_created_at b, b_quantity b)) (batches demo_db_two_swapped)
     = [(1, ''B2'', 200, 5), (2, ''B1'', 100, 5)] \<and>
   map (\<lambda>b. (b_id b, b_quantity b)) (batches (snd (handleProcessEvent demo_env (demo_venta 7) demo_db_two_swapped)))
     = [(1, 3), (2, 0)] \<and>
   map (\<lambda>sl. map (\<lambda>u. (u_batchId u, u_quantity u)) (s_batches_used sl))
     (sales (snd (handleProcessEvent demo_env (demo_venta 7) demo_db_two_swapped)))
     = [[(2, 5), (1, 2)]] \<and>
   map (\<lambda>b. (b_id b, b_lot b, b_created_at b, b_quantity b)) (batches demo_db_two_tied)
     = [(1, ''B1'', 100, 5), (2, ''B2'', 100, 5)] \<and>
   map (\<lambda>sl. map (\<lambda>u. (u_batchId u, u_quantity u)) (s_batches_used sl))
     (sales (snd (handleProcessEvent demo_env (demo_venta 7) demo_db_two_tied)))
     = [[(1, 5), (2, 2)]]"
  by (simp add: demo_db_two_swapped_def demo_db_two_tied_def demo_defs model_defs)

subsection \<open>Undoing a sale\<close>

lemma sum_list_single:
  fixes t :: rat
  assumes "distinct (map g F)" and "e \<in> set F"
  shows "sum_list (map (\<lambda>b. if g e = g b then t else 0) F) = t"
  using assms
proof (induction F)
  case Nil
  then show ?case by simp
next
  case (Cons x F)
  show ?case
  proof (cases "e = x")
    case True
    with Cons.prems have "\<forall>b\<in>set F. g e \<noteq> g b" by auto
    then have "sum_list (map (\<lambda>b. if g e = g b then t else 0) F) = 0"
      by (induction F) auto
    with True show ?thesis by simp
  next
    case False
    with Cons.prems have eF: "e \<in> set F" and dF: "distinct (map g F)" by auto
    from eF have "g e \<in> g ` set F" by simp
    with Cons.prems have "g e \<noteq> g x" by auto
    with Cons.IH [OF dF eF] show ?thesis by simp
  qed
qed

lemma taken_total:
  assumes d: "distinct (map b_id F)" and sub: "set el \<subseteq> set F"
  shows "sum_list (map (\<lambda>b. taken_from (fifo_spec el r) (b_id b)) F)
           = sum_list (map u_quantity (fifo_spec el r))"
  using sub
proof (induction el arbitrary: r)
  case Nil
  then show ?case by simp
next
  case (Cons e rest)
  show ?case
  proof (cases "r = 0")
    case True
    then show ?thesis by simp
  next
    case False
    let ?take = "min (b_quantity e) r"
    from Cons.prems have e: "e \<in> set F" and rest: "set rest \<subseteq> set F" by auto
    have one: "sum_list (map (\<lambda>b. if b_id e = b_id b then ?take else 0) F) = ?take"
      using d e by (rule sum_list_single)
    have "sum_list (map (\<lambda>b. taken_from (fifo_spec (e # rest) r) (b_id b)) F)
        = sum_list (map (\<lambda>b. (if b_id e = b_id b then ?take else 0)
                 + taken_from (fifo_spec rest (r - ?take)) (b_id b)) F)"
      using False by (simp cong: if_cong)
    also have "\<dots> = sum_list (map (\<lambda>b. if b_id e = b_id b then ?take else 0) F)
        + sum_list (map (\<lambda>b. taken_from (fifo_spec rest (r - ?take)) (b_id b)) F)"
      by (rule sum_list_addf)
    also have "\<dots> = ?take + sum_list (map u_quantity (fifo_spec rest (r - ?take)))"
      using one Cons.IH [OF rest] by simp
    finally show ?thesis using False by simp
  qed
qed

lemma totalStock_after_venta:
  assumes ko: "sorted_wrt (<) (map b_id (batches s))"
    and acc: "handleProcessEvent e p s = (Accepted, s')"
    and ev: "pl_event p = ''venta''"
  shows "totalStock (event_sku p) (batches s')
           = totalStock (event_sku p) (batches s) - max 1 (num_or (pl_quantity p) 0)"
proof -
  let ?q = "max 1 (num_or (pl_quantity p) 0)"
  let ?P = "\<lambda>b. b_product_sku b = event_sku p \<and> \<not> startsWith (b_lot b) ''DEV-''"
  let ?F = "filter ?P (batches s)"
  let ?el = "eligibleForSale_spec (event_sku p) (batches s)"
  from venta_fifo [OF ko acc ev] obtain sl :: sale where
    used: "s_batches_used sl = fifo_spec ?el ?q"
    and cov: "sum_list (map u_quantity (s_batches_used sl)) = ?q"
    and store: "batches s' = map (\<lambda>b. b\<lparr>b_quantity := b_quantity b - taken_from (s_batches_used sl) (b_id b)\<rparr>) (batches s)"
    by blast
  let ?upd = "\<lambda>b. b\<lparr>b_quantity := b_quantity b - taken_from (fifo_spec ?el ?q) (b_id b)\<rparr>"
  from ko have "distinct (map b_id (batches s))" by (simp add: strict_sorted_iff)
  then have d: "distinct (map b_id ?F)" by (rule distinct_map_filter)
  have sub: "set ?el \<subseteq> set ?F" by (auto simp: eligibleForSale_spec_def)
  have "filter ?P (map ?upd (batches s)) = map ?upd ?F"
    by (simp add: filter_map comp_def)
  then have "totalStock (event_sku p) (batches s')
      = sum_list (map (\<lambda>b. b_quantity b - taken_from (fifo_spec ?el ?q) (b_id b)) ?F)"
    by (simp add: totalStock_sum store used comp_def)
  also have "\<dots> = sum_list (map b_quantity ?F)
      - sum_list (map (\<lambda>b. taken_from (fifo_spec ?el ?q) (b_id b)) ?F)"
    by (rule sum_list_subtractf)
  also have "\<dots> = totalStock (event_sku p) (batches s) - ?q"
    using taken_total [OF d sub, of ?q] cov used by (simp add: totalStock_sum)
  finally show ?thesis .
qed

lemma get_sale_append_new:
  assumes "get_sale (s_id sl) ss = None"
  shows "get_sale (s_id sl) (ss @ [sl]) = Some sl"
  using assms by (induction ss) (auto simp: get_sale_def)

lemma get_sale_put_sale:
  assumes "get_sale k ss = Some x" and "s_id x' = k"
  shows "get_sale k (put_sale x' ss) = Some x' \<and> map s_id (put_sale x' ss) = map s_id ss"
proof -
  from assms have ex: "list_ex (\<lambda>y. s_id y = s_id x') ss"
    by (auto simp: get_sale_def list_ex_iff find_Some_iff)
  have "find (\<lambda>y. s_id y = k) ss \<noteq> None \<Longrightarrow>
      find (\<lambda>y. s_id y = k) (map (\<lambda>y. if s_id y = k then x' else y) ss) = Some x'"
    using assms(2) by (induction ss) auto
  moreover have "map s_id (map (\<lambda>y. if s_id y = k then x' else y) ss) = map s_id ss"
    using assms(2) by (induction ss) auto
  ultimately show ?thesis using ex assms by (simp add: put_sale_def get_sale_def)
qed

lemma handleUndoSale_completed:
  assumes rdy: "db_ready e"
    and found: "get_sale (se_id ev) (sales s) = Some sl"
    and st: "s_status sl \<noteq> ''cancelled''"
  shows "\<exists>s' b. handleUndoSale e ev s = (Accepted, s') \<and>
     batches s' = batches s @ [b] \<and>
     b_lot b = ''UNDO-'' @ dec (return_gen s) \<and>
     b_product_sku b = se_sku ev \<and> b_quantity b = se_quantity ev \<and>
     b_purchase_price b = (case s_batches_used sl of [] \<Rightarrow> 0 | u # us \<Rightarrow> u_purchase_price u) \<and>
     sales s' = put_sale (sl\<lparr>s_status := ''cancelled''\<rparr>) (sales s) \<and>
     (\<exists>m. movements s' = movements s @ [m] \<and> m_type m = ''anulacion_venta'' \<and>
          m_sku m = se_sku ev \<and> m_quantity m = se_quantity ev) \<and>
     (\<exists>r. returns s' = returns s @ [r] \<and> r_original_sale_id r = Some (se_id ev) \<and>
          r_quantity r = se_quantity ev)"
  using rdy found st
  by (simp add: handleUndoSale_def Let_def add_batch_def add_return_def add_movement_def)

lemma handleUndoSale_cancelled:
  assumes "db_ready e" and "get_sale (se_id ev) (sales s) = Some sl" and "s_status sl = ''cancelled''"
  shows "handleUndoSale e ev s = (Rejected SaleNotFoundOrCancelled, s)"
  using assms by (simp add: handleUndoSale_def)

lemma fifo_spec_first:
  assumes "0 < r" and "r \<le> sum_list (map b_quantity el)"
  shows "el \<noteq> [] \<and>
     (case fifo_spec el r of [] \<Rightarrow> 0 | u # us \<Rightarrow> u_purchase_price u) = b_purchase_price (hd el)"
  using assms by (cases el) auto

lemma venta_stock_bound:
  assumes ko: "sorted_wrt (<) (map b_id (batches s))"
    and acc: "handleProcessEvent e p s = (Accepted, s')"
    and ev: "pl_event p = ''venta''"
  shows "max 1 (num_or (pl_quantity p) 0)
           \<le> sum_list (map b_quantity (eligibleForSale_spec (event_sku p) (batches s)))"
proof -
  from acc ev have v: "venta e (base_movement e p) s = (Accepted, s')"
    by (simp add: handleProcessEvent_def Let_def split: if_splits)
  from venta_Accepted [OF v]
  have "max 1 (num_or (pl_quantity p) 0) \<le> totalStock (event_sku p) (batches s)" by auto
  with totalStock_le_productBatches [of "event_sku p" "batches s"] productBatches_spec [OF ko, of "event_sku p"]
  show ?thesis by simp
qed

subsection \<open>The undo button of the event feed\<close>

text \<open>
  The sales of App.jsx are stored under the string keys \<open>SALE-<ms>\<close>: the store starts
  empty, a venta is the only writer of a new sale, and undo-sale puts a sale back under the
  key it was read from. No handler breaks this.
\<close>

lemma string_keyed_empty: "string_keyed (sales empty_db)"
  by (simp add: string_keyed_def empty_db_def)

lemma venta_string_keyed:
  assumes "string_keyed (sales s)"
  shows "string_keyed (sales (snd (venta e mv s)))"
  using assms
  by (simp add: venta_def add_movement_def string_keyed_def Let_def split: option.splits prod.splits)

lemma handleProcessEvent_string_keyed:
  assumes "string_keyed (sales s)"
  shows "string_keyed (sales (snd (handleProcessEvent e p s)))"
  using assms venta_string_keyed [OF assms, of e "base_movement e p"]
    ingreso_sales_returns [of e p "base_movement e p" s]
    devolucion_sales_returns [of e "base_movement e p" s]
  by (simp add: handleProcessEvent_def Let_def)

lemma run_string_keyed:
  "string_keyed (sales s) \<Longrightarrow> string_keyed (sales (run evs s))"
  by (induction evs s rule: run.induct) (simp_all add: handleProcessEvent_string_keyed)

lemma get_sale_id: "get_sale k ss = Some x \<Longrightarrow> s_id x = k"
  by (auto simp: get_sale_def dest: find_Some_iff [THEN iffD1])

lemma put_sale_string_keyed:
  assumes "string_keyed ss" and "s_id x = KStr k"
  shows "string_keyed (put_sale x ss)"
  using assms by (auto simp: put_sale_def string_keyed_def list_all_iff)

lemma string_keyed_numeric: "string_keyed ss \<Longrightarrow> get_sale (KNum n) ss = None"
  by (auto simp: get_sale_def find_None_iff string_keyed_def list_all_iff)

lemma handleUndoSale_string_keyed:
  assumes "string_keyed (sales s)"
  shows "string_keyed (sales (snd (handleUndoSale e u s)))"
proof (cases "se_id u")
  case (KNum n)
  with string_keyed_numeric [OF assms, of n] show ?thesis
    using assms by (simp add: handleUndoSale_def)
next
  case (KStr k)
  show ?thesis
  proof (cases "get_sale (se_id u) (sales s)")
    case None
    with assms show ?thesis by (simp add: handleUndoSale_def)
  next
    case (Some sl)
    from get_sale_id [OF Some] KStr have "s_id (sl\<lparr>s_status := ''cancelled''\<rparr>) = KStr k" by simp
    from put_sale_string_keyed [OF assms this] Some assms show ?thesis
      by (simp add: handleUndoSale_def add_return_def add_batch_def add_movement_def Let_def)
  qed
qed

lemma handleReturn_string_keyed:
  assumes "string_keyed (sales s)"
  shows "string_keyed (sales (snd (handleReturn e b mode s)))"
  using assms
  by (simp add: handleReturn_def add_return_def add_batch_def add_movement_def put_batch_def Let_def
      split: option.splits)

text \<open>
  An undo request whose id is a number, as the id \<open>Date.now()\<close> of an entry of the event
  feed is, finds no sale among them: it is turned down and changes nothing.
\<close>

lemma handleUndoSale_numeric_id:
  assumes "se_id u = KNum n" and "string_keyed (sales s)" and "db_ready e"
  shows "handleUndoSale e u s = (Rejected SaleNotFoundOrCancelled, s)"
  using assms string_keyed_numeric [OF assms(2), of n] by (simp add: handleUndoSale_def)

text \<open>
  What the handler does with a request that carries the key of the sale, its sku and its
  quantity. With the batches store in key order, the first undo is accepted: the stock of
  the sku is again what it was before the sale, the sale is still in the store under its id
  with status \<open>cancelled\<close>, and one batch tagged \<open>UNDO-{returnId}\<close> is appended with the
  sale's quantity and the purchase price of the first entry of \<open>batches_used\<close>, which is
  the price of the first batch the sale drew from. A second undo of the same request is
  rejected and changes nothing. App.jsx makes no such request: its only caller of the
  handler is the button of the event feed.
\<close>

lemma undo_with_sale_key:
  assumes ko: "key_order s"
    and acc: "handleProcessEvent e p s = (Accepted, s1)" and ev: "pl_event p = ''venta''"
    and req: "se_id u = s_id (last (sales s1))" "se_sku u = s_sku (last (sales s1))"
      "se_quantity u = s_quantity (last (sales s1))"
    and rdy: "db_ready e2" "db_ready e3"
  shows "\<exists>s2 b. handleUndoSale e2 u s1 = (Accepted, s2) \<and>
     totalStock (event_sku p) (batches s2) = totalStock (event_sku p) (batches s) \<and>
     map s_id (sales s2) = map s_id (sales s1) \<and>
     get_sale (se_id u) (sales s1) = Some (last (sales s1)) \<and>
     s_status (last (sales s1)) = ''completed'' \<and>
     get_sale (se_id u) (sales s2) = Some ((last (sales s1))\<lparr>s_status := ''cancelled''\<rparr>) \<and>
     batches s2 = batches s1 @ [b] \<and>
     b_lot b = ''UNDO-'' @ dec (return_gen s1) \<and>
     b_product_sku b = event_sku p \<and>
     b_quantity b = max 1 (num_or (pl_quantity p) 0) \<and>
     b_purchase_price b = (case s_batches_used (last (sales s1)) of [] \<Rightarrow> 0 | x # xs \<Rightarrow> u_purchase_price x) \<and>
     eligibleForSale_spec (event_sku p) (batches s) \<noteq> [] \<and>
     b_purchase_price b = b_purchase_price (hd (eligibleForSale_spec (event_sku p) (batches s))) \<and>
     handleUndoSale e3 u s2 = (Rejected SaleNotFoundOrCancelled, s2)"
proof -
  let ?q = "max 1 (num_or (pl_quantity p) 0)"
  let ?el = "eligibleForSale_spec (event_sku p) (batches s)"
  from ko have srt: "sorted_wrt (<) (map b_id (batches s))" by (simp add: key_order_def)
  from venta_fifo [OF srt acc ev] obtain sl :: sale where
    sl: "sales s1 = sales s @ [sl]" "get_sale (s_id sl) (sales s) = None"
      "s_sku sl = event_sku p" "s_quantity sl = ?q" "s_status sl = ''completed''"
      "s_batches_used sl = fifo_spec ?el ?q"
      "sum_list (map u_quantity (s_batches_used sl)) = ?q"
    by blast
  from sl(1) have last: "last (sales s1) = sl" by simp
  from sl(2) have "get_sale (s_id sl) (sales s @ [sl]) = Some sl" by (rule get_sale_append_new)
  with sl(1) req(1) last have found: "get_sale (se_id u) (sales s1) = Some sl" by simp
  from sl(5) have nc: "s_status sl \<noteq> ''cancelled''" by simp
  from handleUndoSale_completed [OF rdy(1) found nc] obtain s2 b where
    u: "handleUndoSale e2 u s1 = (Accepted, s2)" "batches s2 = batches s1 @ [b]"
      "b_lot b = ''UNDO-'' @ dec (return_gen s1)" "b_product_sku b = se_sku u"
      "b_quantity b = se_quantity u"
      "b_purchase_price b = (case s_batches_used sl of [] \<Rightarrow> 0 | x # xs \<Rightarrow> u_purchase_price x)"
      "sales s2 = put_sale (sl\<lparr>s_status := ''cancelled''\<rparr>) (sales s1)"
    by blast
  have nodev: "\<not> startsWith (b_lot b) ''DEV-''" by (simp add: u(3) startsWith_def)
  from u(2) u(4) u(5) req last sl(3) sl(4) nodev
  have "totalStock (event_sku p) (batches s2) = totalStock (event_sku p) (batches s1) + ?q"
    by (simp add: totalStock_sum)
  with totalStock_after_venta [OF srt acc ev]
  have stock: "totalStock (event_sku p) (batches s2) = totalStock (event_sku p) (batches s)" by simp
  have "s_id (sl\<lparr>s_status := ''cancelled''\<rparr>) = se_id u" using req(1) last by simp
  from get_sale_put_sale [OF found this] u(7)
  have put: "get_sale (se_id u) (sales s2) = Some (sl\<lparr>s_status := ''cancelled''\<rparr>)"
    "map s_id (sales s2) = map s_id (sales s1)" by simp_all
  have "s_status (sl\<lparr>s_status := ''cancelled''\<rparr>) = ''cancelled''" by simp
  from handleUndoSale_cancelled [OF rdy(2) put(1) this]
  have again: "handleUndoSale e3 u s2 = (Rejected SaleNotFoundOrCancelled, s2)" .
  have q1: "0 < ?q" by simp
  have le: "?q \<le> sum_list (map b_quantity ?el)"
    using venta_stock_bound [OF srt acc ev] .
  from fifo_spec_first [OF q1 le] sl(6) u(6)
  have first: "?el \<noteq> []" "b_purchase_price b = b_purchase_price (hd ?el)" by simp_all
  from u stock put found last sl(3-5) again first req show ?thesis by auto
qed

lemma undo_with_sale_key_example:
  "totalStock ''GALX-001'' (batches demo_db10) = 10 \<and>
   totalStock ''GALX-001'' (batches demo_db10_sold) = 6 \<and>
   handleUndoSale demo_env (demo_undo 4) demo_db10_sold = (Accepted, demo_db10_undone) \<and>
   totalStock ''GALX-001'' (batches demo_db10_undone) = 10 \<and>
   map s_status (sales demo_db10_undone) = [''cancelled''] \<and>
   map (\<lambda>b. (b_lot b, b_quantity b, b_purchase_price b)) (batches demo_db10_undone)
     = [(''L202510'', 6, 1), (''UNDO-'' @ dec 1, 4, 1)] \<and>
   handleUndoSale demo_env (demo_undo 4) demo_db10_undone
     = (Rejected SaleNotFoundOrCancelled, demo_db10_undone)"
proof -
  have ko: "key_order demo_db10"
    by (simp add: demo_defs10 demo_defs model_defs key_order_def)
  have acc: "handleProcessEvent demo_env (demo_venta 4) demo_db10 = (Accepted, demo_db10_sold)"
    by (simp add: demo_defs10 demo_defs model_defs)
  have ev: "pl_event (demo_venta 4) = ''venta''" by (simp add: demo_defs)
  have req: "se_id (demo_undo 4) = s_id (last (sales demo_db10_sold))"
    "se_sku (demo_undo 4) = s_sku (last (sales demo_db10_sold))"
    "se_quantity (demo_undo 4) = s_quantity (last (sales demo_db10_sold))"
    by (simp_all add: demo_defs10 demo_defs model_defs)
  have rdy: "db_ready demo_env" by (simp add: demo_defs)
  have und: "handleUndoSale demo_env (demo_undo 4) demo_db10_sold = (Accepted, demo_db10_undone)"
    by (simp add: demo_defs10 demo_defs model_defs handleUndoSale_def Let_def)
  have vals: "totalStock ''GALX-001'' (batches demo_db10) = 10"
    "totalStock ''GALX-001'' (batches demo_db10_sold) = 6"
    "map s_status (sales demo_db10_undone) = [''cancelled'']"
    "map (\<lambda>b. (b_lot b, b_quantity b, b_purchase_price b)) (batches demo_db10_undone)
       = [(''L202510'', 6, 1), (''UNDO-'' @ dec 1, 4, 1)]"
    by (simp_all add: demo_defs10 demo_defs model_defs handleUndoSale_def Let_def)
  have sku: "event_sku (demo_venta 4) = ''GALX-001''" by (simp add: demo_defs event_sku_def)
  from undo_with_sale_key [OF ko acc ev req rdy rdy] und vals sku
  show ?thesis by auto
qed

text \<open>
  The handler reads sku and quantity from the request, not from the sale it found. A
  request with the key of the sale of 4 units of GALX-001 that names 1 unit of LECH-001 is
  accepted: the sale is cancelled, the stock of GALX-001 stays at 6, and the new batch
  belongs to LECH-001.
\<close>

lemma undo_trusts_request_example:
  "handleUndoSale demo_env ((demo_undo 1)\<lparr>se_sku := ''LECH-001''\<rparr>) demo_db10_sold
     = (Accepted, demo_db10_other_undo) \<and>
   totalStock ''GALX-001'' (batches demo_db10_sold) = 6 \<and>
   totalStock ''GALX-001'' (batches demo_db10_other_undo) = 6 \<and>
   totalStock ''LECH-001'' (batches demo_db10_other_undo) = 1 \<and>
   map s_status (sales demo_db10_other_undo) = [''cancelled'']"
  by (simp add: demo_defs10 demo_defs model_defs demo_undo_def handleUndoSale_def Let_def)

text \<open>
  Claim C7. In App.jsx the one caller of \<open>handleUndoSale\<close> is the undo button of the
  event feed, and it passes the feed's entry of the sale, whose id is the number
  \<open>Date.now()\<close>. The sale is stored under the string key \<open>SALE-<ms>\<close>. So, on a database
  whose sales are string-keyed and whose batches store is in key order, undoing an accepted
  venta from its feed entry does not succeed once: the first undo is rejected with the
  toast for a sale not found or already cancelled, the database stays as it was, the sale
  keeps status \<open>completed\<close>, and the stock of the sku stays below its value before the
  sale by the quantity sold, although the entry carries the sale's sku and quantity.
\<close>

theorem C7_feed_undo_rejected:
  assumes sk: "string_keyed (sales s)" and ko: "key_order s"
    and acc: "handleProcessEvent e p s = (Accepted, s1)" and ev: "pl_event p = ''venta''"
    and rdy: "db_ready e2"
  shows "handleUndoSale e2 (feed_entry e p) s1 = (Rejected SaleNotFoundOrCancelled, s1) \<and>
     se_id (feed_entry e p) = KNum (now_feed e) \<and>
     s_id (last (sales s1)) = KStr (''SALE-'' @ dec (now_sale_id e)) \<and>
     se_sku (feed_entry e p) = s_sku (last (sales s1)) \<and>
     se_quantity (feed_entry e p) = s_quantity (last (sales s1)) \<and>
     s_status (last (sales (snd (handleUndoSale e2 (feed_entry e p) s1)))) = ''completed'' \<and>
     totalStock (event_sku p) (batches (snd (handleUndoSale e2 (feed_entry e p) s1)))
       = totalStock (event_sku p) (batches s) - max 1 (num_or (pl_quantity p) 0) \<and>
     totalStock (event_sku p) (batches (snd (handleUndoSale e2 (feed_entry e p) s1)))
       < totalStock (event_sku p) (batches s)"
proof -
  let ?q = "max 1 (num_or (pl_quantity p) 0)"
  from ko have srt: "sorted_wrt (<) (map b_id (batches s))" by (simp add: key_order_def)
  from venta_fifo [OF srt acc ev] obtain sl :: sale where
    sl: "sales s1 = sales s @ [sl]" "s_id sl = KStr (''SALE-'' @ dec (now_sale_id e))"
      "s_sku sl = event_sku p" "s_quantity sl = ?q" "s_status sl = ''completed''"
    by blast
  from sl(1) have last: "last (sales s1) = sl" by simp
  from handleProcessEvent_string_keyed [OF sk, of e p] acc
  have sk1: "string_keyed (sales s1)" by simp
  have num: "se_id (feed_entry e p) = KNum (now_feed e)" by (simp add: feed_entry_def)
  from string_keyed_numeric [OF sk1, of "now_feed e"] num rdy
  have rej: "handleUndoSale e2 (feed_entry e p) s1 = (Rejected SaleNotFoundOrCancelled, s1)"
    by (simp add: handleUndoSale_def)
  have req: "se_sku (feed_entry e p) = event_sku p" "se_quantity (feed_entry e p) = ?q"
    by (simp_all add: feed_entry_def base_movement_def event_sku_def)
  have q1: "0 < ?q" by simp
  from totalStock_after_venta [OF srt acc ev] q1
  have stock: "totalStock (event_sku p) (batches s1) = totalStock (event_sku p) (batches s) - ?q"
    "totalStock (event_sku p) (batches s1) < totalStock (event_sku p) (batches s)"
    by simp_all
  from rej num last sl req stock show ?thesis by simp
qed

theorem C7_witness:
  "handleProcessEvent demo_env (demo_venta 4) demo_db10 = (Accepted, demo_db10_sold) \<and>
   totalStock ''GALX-001'' (batches demo_db10) = 10 \<and>
   totalStock ''GALX-001'' (batches demo_db10_sold) = 6 \<and>
   map s_id (sales demo_db10_sold) = [KStr (''SALE-'' @ dec 1000)] \<and>
   se_id (feed_entry demo_env (demo_venta 4)) = KNum 1001 \<and>
   handleUndoSale demo_env (feed_entry demo_env (demo_venta 4)) demo_db10_sold
     = (Rejected SaleNotFoundOrCancelled, demo_db10_sold) \<and>
   demo_db10_feed_undo = demo_db10_sold \<and>
   totalStock ''GALX-001'' (batches demo_db10_feed_undo) = 6 \<and>
   map s_status (sales demo_db10_feed_undo) = [''completed'']"
proof -
  have sk: "string_keyed (sales demo_db10)"
    by (simp add: demo_defs10 demo_defs model_defs string_keyed_def)
  have ko: "key_order demo_db10"
    by (simp add: demo_defs10 demo_defs model_defs key_order_def)
  have acc: "handleProcessEvent demo_env (demo_venta 4) demo_db10 = (Accepted, demo_db10_sold)"
    by (simp add: demo_defs10 demo_defs model_defs)
  have ev: "pl_event (demo_venta 4) = ''venta''" by (simp add: demo_defs)
  have rdy: "db_ready demo_env" by (simp add: demo_defs)
  have vals: "totalStock ''GALX-001'' (batches demo_db10) = 10"
    "totalStock ''GALX-001'' (batches demo_db10_sold) = 6"
    "map s_id (sales demo_db10_sold) = [KStr (''SALE-'' @ dec 1000)]"
    "map s_status (sales demo_db10_sold) = [''completed'']"
    by (simp_all add: demo_defs10 demo_defs model_defs)
  have nf: "now_feed demo_env = 1001" by (simp add: demo_defs)
  from C7_feed_undo_rejected [OF sk ko acc ev rdy] acc vals nf
  show ?thesis by (simp add: demo_db10_feed_undo_def)
qed

subsection \<open>Events that are turned down\<close>

lemma devolucion_rejected_unchanged:
  assumes "fst (devolucion e mv s) \<noteq> Accepted"
  shows "snd (devolucion e mv s) = s"
  using assms by (auto simp: devolucion_def Let_def split: if_splits)

lemma ingreso_accepts: "fst (ingreso e p mv s) = Accepted"
  by (simp add: ingreso_def Let_def)

text \<open>In App.jsx every event that is turned down leaves the database as it was.\<close>

lemma handleProcessEvent_rejected_unchanged:
  assumes "fst (handleProcessEvent e p s) \<noteq> Accepted"
  shows "snd (handleProcessEvent e p s) = s"
  using assms venta_rejected_unchanged [of e "base_movement e p" s]
    devolucion_rejected_unchanged [of e "base_movement e p" s] ingreso_accepts [of e p "base_movement e p" s]
  by (simp add: handleProcessEvent_def Let_def split: if_splits)

end
